theory Spec2Isabelle
  imports Complex_Main "HOL-Library.Word" "HOL-Library.Log_Nat"
begin

section \<open>Numbers of the host language\<close>

text \<open>
  The server is JavaScript, whose numbers are IEEE 754 doubles. Pixel positions that the
  code rounds are integers (\<^typ>\<open>int\<close>), and a number is modelled by its exact value
  (\<^typ>\<open>rat\<close>). In the capture tick, the timer and the edge detector the operations
  are taken exactly. In the click handler, whose result depends on it, every operation
  is rounded to the nearest double (\<open>js_add\<close>, \<open>js_div\<close>). \<open>Math.round\<close> rounds to
  the nearest integer, a tie towards plus infinity. A division by zero, which gives
  \<open>Infinity\<close> or \<open>NaN\<close> in the source, does not arise for positive screen sizes, scale
  factors and frame rates.
\<close>

definition Math_round :: "rat \<Rightarrow> int" where
  "Math_round q = \<lfloor>q + 1 / 2\<rfloor>"

text \<open>
  Rounding to double precision. \<open>exponentOf q\<close> is the binary exponent of \<open>q \<noteq> 0\<close>,
  the \<open>e\<close> with \<open>2 ^ e \<le> |q| < 2 ^ (e + 1)\<close> (\<open>bitlen n\<close> is the number of binary digits
  of \<open>n\<close>). A double has a significand of 53 bits, so the doubles around \<open>q\<close> are the
  multiples of \<open>2 ^ (e - 52)\<close>, or of \<open>2 ^ (-1074)\<close> in the subnormal range; \<open>toDouble\<close>
  takes the nearest one, a tie to the one with the even significand. Magnitudes of
  \<open>2 ^ 1024\<close> and more, which overflow to \<open>Infinity\<close>, are outside the model.
\<close>

definition exponentOf :: "rat \<Rightarrow> int" where
  "exponentOf q =
     (if 1 \<le> \<bar>q\<bar> then bitlen \<lfloor>\<bar>q\<bar>\<rfloor> - 1 else - bitlen (\<lceil>1 / \<bar>q\<bar>\<rceil> - 1))"

definition roundHalfEven :: "rat \<Rightarrow> int" where
  "roundHalfEven m =
     (let f = \<lfloor>m\<rfloor>; d = m - of_int f
      in if d < 1 / 2 then f else if 1 / 2 < d then f + 1 else if even f then f else f + 1)"

definition toDouble :: "rat \<Rightarrow> rat" where
  "toDouble q =
     (if q = 0 then 0
      else (let p = max (exponentOf q) (- 1022) - 52;
                ulp = 2 powi p
            in of_int (roundHalfEven (q / ulp)) * ulp))"

text \<open>The sum and the quotient of two doubles, as the double that \<open>+\<close> and \<open>/\<close> yield.\<close>

definition js_add :: "rat \<Rightarrow> rat \<Rightarrow> rat" where
  "js_add a b = toDouble (a + b)"

definition js_div :: "rat \<Rightarrow> rat \<Rightarrow> rat" where
  "js_div a b = toDouble (a / b)"

section \<open>Rectangles and the base region of a capture tick\<close>

text \<open>\<open>{x, y, width, height}\<close> as the window detector and \<open>screenConfig\<close> give it.\<close>

record bounds =
  bounds_x :: rat
  bounds_y :: rat
  bounds_width :: rat
  bounds_height :: rat

text \<open>The rounded region \<open>baseX, baseY, baseW, baseH\<close> of \<open>captureAndEmit\<close>.\<close>

record region =
  region_x :: int
  region_y :: int
  region_w :: int
  region_h :: int

text \<open>\<open>getDpiScale(width, height)\<close>: snapshot pixels per logical screen unit.\<close>

record dpi_scale =
  scale_x :: rat
  scale_y :: rat

definition getDpiScale :: "int \<Rightarrow> int \<Rightarrow> int \<Rightarrow> int \<Rightarrow> dpi_scale" where
  "getDpiScale logicalWidth logicalHeight width height =
     \<lparr>scale_x = of_int width / of_int logicalWidth,
      scale_y = of_int height / of_int logicalHeight\<rparr>"

text \<open>
  ``Determine Base Region'': \<open>activeWindow = state.detectedWindow || this.globalDetectedWindow\<close>,
  else the configured \<open>screenConfig\<close>; every component is scaled and rounded.
\<close>

definition scaleBounds :: "dpi_scale \<Rightarrow> bounds \<Rightarrow> region" where
  "scaleBounds dpiScale b =
     \<lparr>region_x = Math_round (bounds_x b * scale_x dpiScale),
      region_y = Math_round (bounds_y b * scale_y dpiScale),
      region_w = Math_round (bounds_width b * scale_x dpiScale),
      region_h = Math_round (bounds_height b * scale_y dpiScale)\<rparr>"

definition baseRegion ::
  "dpi_scale \<Rightarrow> bounds option \<Rightarrow> bounds option \<Rightarrow> bounds \<Rightarrow> region" where
  "baseRegion dpiScale detectedWindow globalDetectedWindow screenConfig =
     (case detectedWindow of
        Some activeWindow \<Rightarrow> scaleBounds dpiScale activeWindow
      | None \<Rightarrow>
          (case globalDetectedWindow of
             Some activeWindow \<Rightarrow> scaleBounds dpiScale activeWindow
           | None \<Rightarrow> scaleBounds dpiScale screenConfig))"

text \<open>
  ``Clip'': four assignments in sequence, each guarded by its own test; the later
  tests read the values the earlier ones wrote.
\<close>

definition clip :: "int \<Rightarrow> int \<Rightarrow> region \<Rightarrow> region" where
  "clip screenWidth screenHeight r =
     (let baseX = (if region_x r < 0 then 0 else region_x r);
          baseY = (if region_y r < 0 then 0 else region_y r);
          baseW = (if baseX + region_w r > screenWidth then screenWidth - baseX else region_w r);
          baseH = (if baseY + region_h r > screenHeight then screenHeight - baseY else region_h r)
      in \<lparr>region_x = baseX, region_y = baseY, region_w = baseW, region_h = baseH\<rparr>)"

text \<open>The rectangle handed to \<open>mainImage.clone().crop\<close> lies inside the snapshot.\<close>

definition insideSnapshot :: "int \<Rightarrow> int \<Rightarrow> region \<Rightarrow> bool" where
  "insideSnapshot screenWidth screenHeight r \<longleftrightarrow>
     0 \<le> region_x r \<and> 0 \<le> region_y r \<and> 0 < region_w r \<and> 0 < region_h r \<and>
     region_x r + region_w r \<le> screenWidth \<and> region_y r + region_h r \<le> screenHeight"

section \<open>Per-client detection state (ClientManager)\<close>

datatype view_mode = Chat | Terminal | Apps | Config | Idle

text \<open>
  The fields of \<open>createDefaultClientState\<close> that the capture tick, the detection step
  and the input handlers read or write. \<open>null\<close> is \<open>None\<close>. The per-client
  configuration overrides live in the configuration manager and are modelled there.
\<close>

record client_state =
  socketId :: string
  viewMode :: view_mode
  isActive :: bool
  calibrationMode :: bool
  calibrationStartTime :: "int option"
  frameCount :: int
  lastPaneX :: int
  stablePaneX :: int
  lastPaneY :: int
  stablePaneY :: int
  stablePaneW :: int
  stablePaneH :: int
  stabilityCount :: int
  detectedWindow :: "bounds option"
  lastCaptureArea :: "region option"
  lastClickPos :: "(rat \<times> rat \<times> int) option"
  fixedChatZone :: "int option"
  fixedTerminalZone :: "region option"

definition createDefaultClientState :: "string \<Rightarrow> client_state" where
  "createDefaultClientState sid =
     \<lparr>socketId = sid, viewMode = Chat, isActive = True,
      calibrationMode = True, calibrationStartTime = None, frameCount = 0,
      lastPaneX = - 1, stablePaneX = - 1, lastPaneY = - 1, stablePaneY = - 1,
      stablePaneW = - 1, stablePaneH = - 1, stabilityCount = 0,
      detectedWindow = None, lastCaptureArea = None, lastClickPos = None,
      fixedChatZone = None, fixedTerminalZone = None\<rparr>"

definition resetDetectionState :: "client_state \<Rightarrow> client_state" where
  "resetDetectionState state =
     state\<lparr>stablePaneX := - 1, stablePaneY := - 1, stabilityCount := 0,
            calibrationMode := True, calibrationStartTime := None\<rparr>"

text \<open>\<open>updateActivity\<close> wakes the client up (the activity timestamp is not modelled).\<close>

definition updateActivity :: "client_state \<Rightarrow> client_state" where
  "updateActivity state = state\<lparr>isActive := True\<rparr>"

text \<open>
  \<open>setMode(socketId, mode)\<close> for a known client; \<open>isFixedMode\<close> is
  \<open>config.detectionMode === 'fixed'\<close> of the effective configuration.
\<close>

definition setMode :: "bool \<Rightarrow> view_mode \<Rightarrow> client_state \<Rightarrow> client_state" where
  "setMode isFixedMode mode state =
     (let state1 =
        (if (mode = Chat \<or> mode = Terminal) \<and> viewMode state \<noteq> mode then
           (if isFixedMode then
              (if mode = Chat \<and> fixedChatZone state \<noteq> None then
                 state\<lparr>stablePaneX := the (fixedChatZone state),
                        lastPaneX := the (fixedChatZone state),
                        stabilityCount := 3, calibrationMode := False\<rparr>
               else if mode = Terminal \<and> fixedTerminalZone state \<noteq> None then
                 (let z = the (fixedTerminalZone state) in
                  state\<lparr>stablePaneX := region_x z, stablePaneY := region_y z,
                         stablePaneW := region_w z, stablePaneH := region_h z,
                         lastPaneX := region_x z, lastPaneY := region_y z,
                         stabilityCount := 3, calibrationMode := False\<rparr>)
               else resetDetectionState state)
            else resetDetectionState state)
         else state)
      in updateActivity (state1\<lparr>viewMode := mode\<rparr>))"

text \<open>The handlers of \<open>calibration:reset\<close> and \<open>calibration:resetFixed\<close>.\<close>

definition calibration_reset :: "bool \<Rightarrow> client_state \<Rightarrow> client_state" where
  "calibration_reset isFixedMode state =
     (setMode isFixedMode (viewMode state) (updateActivity state))
       \<lparr>calibrationMode := True, calibrationStartTime := None\<rparr>"

definition calibration_resetFixed :: "bool \<Rightarrow> client_state \<Rightarrow> client_state" where
  "calibration_resetFixed isFixedMode state =
     (let state1 = (updateActivity state)\<lparr>fixedChatZone := None, fixedTerminalZone := None\<rparr>
      in (setMode isFixedMode (viewMode state1) state1)
           \<lparr>calibrationMode := True, calibrationStartTime := None\<rparr>)"

section \<open>The detection step (StreamEngine.performPaneDetection)\<close>

text \<open>\<open>paneBounds\<close> as a Pane Locator returns it.\<close>

record pane_bounds =
  pane_x :: int
  pane_y :: int
  pane_width :: int
  pane_height :: int

datatype tick_error = CaptureError | CropError | DetectionError | EncodeError

text \<open>
  What the two Pane Locators yield on this tick's client image if they are called:
  a rejection (\<open>Inl\<close>), \<open>null\<close> (\<open>Inr None\<close>) or bounds.
\<close>

record locator =
  findChatPaneStructural :: "tick_error + pane_bounds option"
  findTerminalPane :: "tick_error + pane_bounds option"

text \<open>
  The result of one detection step: the client state as it is when the step returns or
  throws, how many times a Pane Locator was called, and the error thrown, if any.
\<close>

record detection_result =
  state_after :: client_state
  locatorCalls :: nat
  thrown :: "tick_error option"

definition chatObservation :: "bool \<Rightarrow> pane_bounds \<Rightarrow> client_state \<Rightarrow> client_state" where
  "chatObservation isFixedMode paneBounds state =
     (let detectedX = pane_x paneBounds;
          state1 = (if \<bar>detectedX - lastPaneX state\<bar> < 5
                    then state\<lparr>stabilityCount := stabilityCount state + 1\<rparr>
                    else state\<lparr>stabilityCount := 0, lastPaneX := detectedX\<rparr>)
      in if stabilityCount state1 \<ge> 3 then
           (let state2 = state1\<lparr>stablePaneX := lastPaneX state1\<rparr>
            in if isFixedMode
               then state2\<lparr>fixedChatZone := Some (stablePaneX state2), calibrationMode := False\<rparr>
               else state2)
         else state1)"

definition terminalObservation :: "bool \<Rightarrow> pane_bounds \<Rightarrow> client_state \<Rightarrow> client_state" where
  "terminalObservation isFixedMode paneBounds state =
     (let detectedY = pane_y paneBounds;
          detectedX = pane_x paneBounds;
          detectedW = pane_width paneBounds;
          detectedH = pane_height paneBounds;
          state1 = (if \<bar>detectedY - lastPaneY state\<bar> < 5 \<and> \<bar>detectedX - lastPaneX state\<bar> < 5
                    then state\<lparr>stabilityCount := stabilityCount state + 1\<rparr>
                    else state\<lparr>stabilityCount := 0, lastPaneY := detectedY, lastPaneX := detectedX\<rparr>)
      in if stabilityCount state1 \<ge> 3 then
           (let state2 = state1\<lparr>stablePaneY := lastPaneY state1, stablePaneX := lastPaneX state1,
                                stablePaneW := detectedW, stablePaneH := detectedH\<rparr>
            in if isFixedMode
               then state2\<lparr>fixedTerminalZone :=
                             Some \<lparr>region_x = stablePaneX state2, region_y = stablePaneY state2,
                                   region_w = stablePaneW state2, region_h = stablePaneH state2\<rparr>,
                           calibrationMode := False\<rparr>
               else state2)
         else state1)"

text \<open>
  The prologue: calibration start, frame counter, calibration timeout
  (\<open>CALIBRATION_DURATION = 5000\<close>). \<open>now\<close> is \<open>Date.now()\<close>; a start time is
  truthy when it is not 0.
\<close>

definition calibrationPrologue :: "int \<Rightarrow> client_state \<Rightarrow> client_state" where
  "calibrationPrologue now state =
     (let state1 = (if calibrationMode state \<and> calibrationStartTime state = None
                    then state\<lparr>calibrationStartTime := Some now\<rparr> else state);
          state2 = state1\<lparr>frameCount := frameCount state1 + 1\<rparr>
      in case calibrationStartTime state2 of
           None \<Rightarrow> state2
         | Some start \<Rightarrow>
             (if calibrationMode state2 \<and> start \<noteq> 0 \<and> now - start \<ge> 5000
              then state2\<lparr>calibrationMode := False\<rparr> else state2))"

text \<open>``Fast Exit if Fixed Mode AND already stable''.\<close>

definition fastExit :: "bool \<Rightarrow> client_state \<Rightarrow> bool" where
  "fastExit isFixedMode state \<longleftrightarrow>
     isFixedMode \<and> \<not> calibrationMode state \<and>
     (viewMode state = Chat \<and> stablePaneX state > 0 \<or>
      viewMode state = Terminal \<and> stablePaneY state > 0)"

definition shouldRunDetection :: "client_state \<Rightarrow> bool" where
  "shouldRunDetection state \<longleftrightarrow>
     calibrationMode state \<or> frameCount state mod 10 = 0 \<or>
     (viewMode state = Chat \<and> stablePaneX state = - 1) \<or>
     (viewMode state = Terminal \<and> stablePaneY state = - 1)"

text \<open>
  The debug overlay the source draws on the client image while calibrating changes
  pixels of the frame only and no field of the state; it is not part of the result.
\<close>

definition performPaneDetection ::
  "int \<Rightarrow> bool \<Rightarrow> locator \<Rightarrow> client_state \<Rightarrow> detection_result" where
  "performPaneDetection now isFixedMode loc state0 =
     (let state = calibrationPrologue now state0 in
      if fastExit isFixedMode state then
        \<lparr>state_after = state, locatorCalls = 0, thrown = None\<rparr>
      else if \<not> shouldRunDetection state then
        \<lparr>state_after = state, locatorCalls = 0, thrown = None\<rparr>
      else if viewMode state = Chat then
        (case findChatPaneStructural loc of
           Inl e \<Rightarrow> \<lparr>state_after = state, locatorCalls = 1, thrown = Some e\<rparr>
         | Inr None \<Rightarrow> \<lparr>state_after = state, locatorCalls = 1, thrown = None\<rparr>
         | Inr (Some paneBounds) \<Rightarrow>
             \<lparr>state_after = chatObservation isFixedMode paneBounds state,
              locatorCalls = 1, thrown = None\<rparr>)
      else if viewMode state = Terminal then
        (case findTerminalPane loc of
           Inl e \<Rightarrow> \<lparr>state_after = state, locatorCalls = 1, thrown = Some e\<rparr>
         | Inr None \<Rightarrow> \<lparr>state_after = state, locatorCalls = 1, thrown = None\<rparr>
         | Inr (Some paneBounds) \<Rightarrow>
             \<lparr>state_after = terminalObservation isFixedMode paneBounds state,
              locatorCalls = 1, thrown = None\<rparr>)
      else \<lparr>state_after = state, locatorCalls = 0, thrown = None\<rparr>)"

text \<open>
  Successive ticks of one client: each tick has its own clock reading and its own
  locator results. The run yields the final state and the total number of locator calls.
\<close>

fun runDetections ::
  "bool \<Rightarrow> (int \<times> locator) list \<Rightarrow> client_state \<Rightarrow> client_state \<times> nat" where
  "runDetections isFixedMode [] state = (state, 0)"
| "runDetections isFixedMode ((now, loc) # ticks) state =
     (let r = performPaneDetection now isFixedMode loc state;
          (state', n) = runDetections isFixedMode ticks (state_after r)
      in (state', locatorCalls r + n))"

text \<open>A chat locator that finds the separator at \<open>x\<close> in an image of the given size.\<close>

definition chatFound :: "int \<Rightarrow> int \<Rightarrow> int \<Rightarrow> locator" where
  "chatFound width height x =
     \<lparr>findChatPaneStructural =
        Inr (Some \<lparr>pane_x = x, pane_y = 0, pane_width = width - x, pane_height = height\<rparr>),
      findTerminalPane = Inr None\<rparr>"

text \<open>
  LOCKED: calibration is over and a stable zone is committed for the current view mode
  (the condition of the fast exit once the client is in fixed mode).
\<close>

definition locked :: "client_state \<Rightarrow> bool" where
  "locked state \<longleftrightarrow>
     \<not> calibrationMode state \<and>
     (viewMode state = Chat \<and> stablePaneX state > 0 \<or>
      viewMode state = Terminal \<and> stablePaneY state > 0)"

section \<open>Configuration (ConfigManager)\<close>

record crop =
  crop_top :: int
  crop_bottom :: int
  crop_left :: int
  crop_right :: int

text \<open>The global settings that the stream engine and the click handler read.\<close>

record global_config =
  screenConfig :: bounds
  chatCrop :: crop
  terminalCrop :: crop
  fps :: rat
  quality :: rat
  detectionModeFixed :: bool

text \<open>The per-client overrides; \<open>null\<close> (``use global'') is \<open>None\<close>.\<close>

record client_config =
  fps_override :: "rat option"
  quality_override :: "rat option"
  detectionModeFixed_override :: "bool option"

text \<open>
  The low-resource accessors \<open>isLowResourceMode\<close>, \<open>getEffectiveFps\<close>,
  \<open>getEffectiveQuality\<close> and \<open>getImageDownscale\<close> of the configuration manager
  are called by the engine and the handlers; their values are parameters here.
\<close>

record low_resource =
  isLowResourceMode :: bool
  getEffectiveFps :: rat
  getEffectiveQuality :: rat
  getImageDownscale :: rat

text \<open>The part of \<open>getEffectiveConfig(socketId, viewMode)\<close> used by the core.\<close>

record effective_config =
  eff_fps :: rat
  eff_quality :: rat
  eff_fixed :: bool
  cropTop :: int
  cropBottom :: int
  cropLeft :: int
  cropRight :: int

definition getEffectiveConfig :: "global_config \<Rightarrow> client_config \<Rightarrow> view_mode \<Rightarrow> effective_config" where
  "getEffectiveConfig global client vm =
     \<lparr>eff_fps = (case fps_override client of Some f \<Rightarrow> f | None \<Rightarrow> fps global),
      eff_quality = (case quality_override client of Some q \<Rightarrow> q | None \<Rightarrow> quality global),
      eff_fixed = (case detectionModeFixed_override client of
                     Some m \<Rightarrow> m | None \<Rightarrow> detectionModeFixed global),
      cropTop = (if vm = Chat then crop_top (chatCrop global) else crop_top (terminalCrop global)),
      cropBottom = (if vm = Chat then crop_bottom (chatCrop global)
                    else crop_bottom (terminalCrop global)),
      cropLeft = (if vm = Chat then crop_left (chatCrop global) else crop_left (terminalCrop global)),
      cropRight = (if vm = Chat then crop_right (chatCrop global)
                   else crop_right (terminalCrop global))\<rparr>"

text \<open>The defaults of the configuration manager.\<close>

definition defaultGlobal :: global_config where
  "defaultGlobal =
     \<lparr>screenConfig = \<lparr>bounds_x = 0, bounds_y = 0, bounds_width = 800, bounds_height = 600\<rparr>,
      chatCrop = \<lparr>crop_top = 40, crop_bottom = 40, crop_left = 0, crop_right = 0\<rparr>,
      terminalCrop = \<lparr>crop_top = 10, crop_bottom = 10, crop_left = 0, crop_right = 0\<rparr>,
      fps = 30, quality = 70, detectionModeFixed = False\<rparr>"

definition clientDefaults :: client_config where
  "clientDefaults =
     \<lparr>fps_override = None, quality_override = None, detectionModeFixed_override = None\<rparr>"

definition lowResourceOff :: low_resource where
  "lowResourceOff =
     \<lparr>isLowResourceMode = False, getEffectiveFps = 10, getEffectiveQuality = 40,
      getImageDownscale = 1\<rparr>"

section \<open>The capture timer (StreamEngine.updateInterval)\<close>

text \<open>\<open>Math.max(a, ...xs)\<close>.\<close>

definition Math_max :: "rat \<Rightarrow> rat list \<Rightarrow> rat" where
  "Math_max a xs = fold max xs a"

text \<open>
  A connected client is its state together with its configuration overrides;
  \<open>getAllClients()\<close> is the list of all of them in insertion order.
\<close>

type_synonym client = "client_state \<times> client_config"

definition targetFps :: "low_resource \<Rightarrow> global_config \<Rightarrow> client list \<Rightarrow> rat" where
  "targetFps lr globalConfig clients =
     (let lowResourceMode = isLowResourceMode lr;
          baseFps = (if lowResourceMode then getEffectiveFps lr else fps globalConfig);
          clientFps = map (\<lambda>c. eff_fps (getEffectiveConfig globalConfig (snd c) (viewMode (fst c))))
                        clients
      in if lowResourceMode then baseFps else Math_max baseFps clientFps)"

definition intervalMs :: "low_resource \<Rightarrow> global_config \<Rightarrow> client list \<Rightarrow> rat" where
  "intervalMs lr globalConfig clients = 1000 / targetFps lr globalConfig clients"

text \<open>
  The engine: \<open>streamInterval\<close> is the period of the running capture timer, if one
  is running.
\<close>

record engine =
  isStreaming :: bool
  streamInterval :: "rat option"
  isCapturing :: bool
  globalDetectedWindow :: "bounds option"

definition updateInterval :: "low_resource \<Rightarrow> global_config \<Rightarrow> client list \<Rightarrow> engine \<Rightarrow> engine" where
  "updateInterval lr globalConfig clients eng =
     (if isStreaming eng
      then eng\<lparr>streamInterval := Some (intervalMs lr globalConfig clients)\<rparr>
      else eng\<lparr>streamInterval := None\<rparr>)"

text \<open>The streaming view modes: \<open>['chat', 'terminal', 'apps'].includes(c.viewMode)\<close>.\<close>

definition streamingMode :: "view_mode \<Rightarrow> bool" where
  "streamingMode vm \<longleftrightarrow> vm = Chat \<or> vm = Terminal \<or> vm = Apps"

text \<open>
  The target rate in the words of the specification: the maximum over the active
  clients in a streaming mode only, together with the global default.
\<close>

definition targetFps_activeStreamingOnly :: "global_config \<Rightarrow> client list \<Rightarrow> rat" where
  "targetFps_activeStreamingOnly globalConfig clients =
     Math_max (fps globalConfig)
       (map (\<lambda>c. eff_fps (getEffectiveConfig globalConfig (snd c) (viewMode (fst c))))
          (filter (\<lambda>c. isActive (fst c) \<and> streamingMode (viewMode (fst c))) clients))"

section \<open>The click handler (index.js, input:click)\<close>

datatype robot_call = moveMouse int int | mouseClick

text \<open>
  The helper \<open>getDpiScale\<close> of \<open>index.js\<close>: the two quotients, as doubles.
\<close>

definition index_getDpiScale :: "int \<Rightarrow> int \<Rightarrow> int \<Rightarrow> int \<Rightarrow> dpi_scale" where
  "index_getDpiScale logicalWidth logicalHeight width height =
     \<lparr>scale_x = js_div (of_int width) (of_int logicalWidth),
      scale_y = js_div (of_int height) (of_int logicalHeight)\<rparr>"

text \<open>
  \<open>pos\<close> is \<open>None\<close> when the payload is missing or a coordinate is not a number;
  its coordinates are doubles. \<open>state\<close> is \<open>None\<close> when the client is unknown.
  \<open>snapshot\<close> is what \<open>screenshot()\<close> and \<open>Jimp.read\<close> give: an error, or the pixel size
  of the screen. \<open>logical\<close> is \<open>robot.getScreenSize()\<close>. The result is the state of the
  client and the calls made to the OS input API; an error inside the \<open>try\<close> is logged and
  nothing is called. The sums and quotients are evaluated left to right, each rounded to
  a double, as the source evaluates
  \<open>state.lastCaptureArea.x + (pos.x / downscale) + cropLeft\<close> and
  \<open>Math.round(absoluteX / scale.x)\<close>.
\<close>

definition input_click ::
  "low_resource \<Rightarrow> global_config \<Rightarrow> client_config \<Rightarrow> int \<times> int \<Rightarrow> tick_error + int \<times> int \<Rightarrow>
   int \<Rightarrow> (rat \<times> rat) option \<Rightarrow> client_state option \<Rightarrow> client_state option \<times> robot_call list" where
  "input_click lr globalConfig clientConfig logical snapshot now pos state =
     (case pos of
        None \<Rightarrow> (map_option updateActivity state, [])
      | Some (pos_x, pos_y) \<Rightarrow>
         (case map_option updateActivity state of
            None \<Rightarrow> (None, [])
          | Some st \<Rightarrow>
             (case lastCaptureArea st of
                None \<Rightarrow> (Some st, [])
              | Some area \<Rightarrow>
                 (case snapshot of
                    Inl e \<Rightarrow> (Some st, [])
                  | Inr (width, height) \<Rightarrow>
                     (let scale = index_getDpiScale (fst logical) (snd logical) width height;
                          effectiveConfig = getEffectiveConfig globalConfig clientConfig (viewMode st);
                          downscale = (if isLowResourceMode lr then getImageDownscale lr else 1);
                          absoluteX = js_add (js_add (of_int (region_x area))
                                                (js_div pos_x downscale))
                                        (of_int (cropLeft effectiveConfig));
                          absoluteY = js_add (js_add (of_int (region_y area))
                                                (js_div pos_y downscale))
                                        (of_int (cropTop effectiveConfig));
                          logicalX = Math_round (js_div absoluteX (scale_x scale));
                          logicalY = Math_round (js_div absoluteY (scale_y scale))
                      in (Some (st\<lparr>lastClickPos := Some (absoluteX, absoluteY, now)\<rparr>),
                          [moveMouse logicalX logicalY, mouseClick]))))))"

text \<open>
  The logical coordinates in the words of the specification:
  \<open>((x + cx) / sx, (y + cy) / sy)\<close>, taken exactly.
\<close>

definition logical_as_specified :: "region \<Rightarrow> dpi_scale \<Rightarrow> rat \<times> rat \<Rightarrow> rat \<times> rat" where
  "logical_as_specified area scale pos =
     ((of_int (region_x area) + fst pos) / scale_x scale,
      (of_int (region_y area) + snd pos) / scale_y scale)"

section \<open>The edge detector (pane-detector.js)\<close>

text \<open>
  A Jimp image: its size and its pixel accessor \<open>getPixelColor(x, y)\<close>, which yields a
  32-bit colour \<open>0xRRGGBBAA\<close>. The accessor belongs to the image library; it is a field
  of the model's image. Scan positions are numbers: with a \<open>scanRegion\<close> they may be
  fractional.
\<close>

record image =
  img_width :: int
  img_height :: int
  getPixelColor :: "rat \<Rightarrow> rat \<Rightarrow> 32 word"

record rgba =
  rgba_r :: int
  rgba_g :: int
  rgba_b :: int
  rgba_a :: int

definition intToRGBA :: "32 word \<Rightarrow> rgba" where
  "intToRGBA i =
     \<lparr>rgba_r = uint (and (drop_bit 24 i) 0xFF),
      rgba_g = uint (and (drop_bit 16 i) 0xFF),
      rgba_b = uint (and (drop_bit 8 i) 0xFF),
      rgba_a = uint (and i 0xFF)\<rparr>"

definition colorDiff :: "rgba \<Rightarrow> rgba \<Rightarrow> int" where
  "colorDiff c1 c2 =
     \<bar>rgba_r c1 - rgba_r c2\<bar> + \<bar>rgba_g c1 - rgba_g c2\<bar> + \<bar>rgba_b c1 - rgba_b c2\<bar>"

definition getLowResourceSampleStep :: "bool \<Rightarrow> rat \<Rightarrow> rat" where
  "getLowResourceSampleStep lowResourceMode defaultStep =
     (if lowResourceMode then max 15 (defaultStep * 2) else defaultStep)"

text \<open>
  The options of both edge finders. \<open>scanRegion\<close> is the centre and the extent of the
  region to scan along the scan axis.
\<close>

record edge_options =
  minEdgeScore :: rat
  edgeThreshold :: rat
  sampleStep :: rat
  marginX :: rat
  marginY :: rat
  fullWidth :: bool
  scanRegion :: "(rat \<times> rat) option"

definition defaultEdgeOptions :: "bool \<Rightarrow> edge_options" where
  "defaultEdgeOptions lowResourceMode =
     \<lparr>minEdgeScore = 6 / 10, edgeThreshold = 25,
      sampleStep = getLowResourceSampleStep lowResourceMode 5,
      marginX = 30, marginY = 30, fullWidth = False, scanRegion = None\<rparr>"

text \<open>
  A candidate \<open>{x | y, edgeScore, continuity}\<close>; \<open>edge_pos\<close> is \<open>x\<close> for a vertical
  edge and \<open>y\<close> for a horizontal one.
\<close>

record edge =
  edge_pos :: rat
  edgeScore :: rat
  continuity :: rat

text \<open>
  The inner loop of \<open>findVerticalEdges\<close>: \<open>for (y = marginY; y < height - marginY;
  y += sampleStep)\<close>, counting the samples whose left and right neighbours differ by more
  than the threshold. With a step that is not positive the source loop does not end; the
  model's loop stops there and the caller reports the divergence.
\<close>

function sampleColumn ::
  "image \<Rightarrow> rat \<Rightarrow> rat \<Rightarrow> rat \<Rightarrow> rat \<Rightarrow> rat \<Rightarrow> nat \<times> nat \<Rightarrow> nat \<times> nat" where
  "sampleColumn img thr step bound x y (edgeCount, totalSamples) =
     (if y < bound \<and> 0 < step then
        (let leftX = max 0 (x - 3);
             rightX = min (of_int (img_width img) - 1) (x + 3);
             leftColor = intToRGBA (getPixelColor img leftX y);
             rightColor = intToRGBA (getPixelColor img rightX y);
             diff = colorDiff leftColor rightColor
         in sampleColumn img thr step bound x (y + step)
              (if of_int diff > thr then edgeCount + 1 else edgeCount, totalSamples + 1))
      else (edgeCount, totalSamples))"
  by pat_completeness auto
termination
proof (relation "measure (\<lambda>(img, thr, step, bound, x, y, c). nat \<lceil>(bound - y) / step\<rceil>)")
  show "wf (measure (\<lambda>(img, thr, step, bound, x, y, c). nat \<lceil>(bound - y) / step\<rceil>))"
    by simp
next
  fix img :: image and thr step bound x y :: rat and edgeCount totalSamples :: nat
    and leftX rightX :: rat and leftColor rightColor :: rgba and diff :: int
  assume a: "y < bound \<and> 0 < step"
  have "(bound - (y + step)) / step = (bound - y) / step - 1"
    using a by (simp add: field_simps)
  moreover have "0 < (bound - y) / step"
    using a by simp
  ultimately have "nat \<lceil>(bound - (y + step)) / step\<rceil> < nat \<lceil>(bound - y) / step\<rceil>"
    by simp
  then show "((img, thr, step, bound, x, y + step,
                if thr < of_int diff then edgeCount + 1 else edgeCount, totalSamples + 1),
               (img, thr, step, bound, x, y, edgeCount, totalSamples))
             \<in> measure (\<lambda>(img, thr, step, bound, x, y, c). nat \<lceil>(bound - y) / step\<rceil>)"
    by simp
qed

text \<open>The inner loop of \<open>findHorizontalEdges\<close>: samples along a row.\<close>

function sampleRow ::
  "image \<Rightarrow> rat \<Rightarrow> rat \<Rightarrow> rat \<Rightarrow> rat \<Rightarrow> rat \<Rightarrow> nat \<times> nat \<Rightarrow> nat \<times> nat" where
  "sampleRow img thr step bound y x (edgeCount, totalSamples) =
     (if x < bound \<and> 0 < step then
        (let topY = max 0 (y - 3);
             bottomY = min (of_int (img_height img) - 1) (y + 3);
             topColor = intToRGBA (getPixelColor img x topY);
             bottomColor = intToRGBA (getPixelColor img x bottomY);
             diff = colorDiff topColor bottomColor
         in sampleRow img thr step bound y (x + step)
              (if of_int diff > thr then edgeCount + 1 else edgeCount, totalSamples + 1))
      else (edgeCount, totalSamples))"
  by pat_completeness auto
termination
proof (relation "measure (\<lambda>(img, thr, step, bound, y, x, c). nat \<lceil>(bound - x) / step\<rceil>)")
  show "wf (measure (\<lambda>(img, thr, step, bound, y, x, c). nat \<lceil>(bound - x) / step\<rceil>))"
    by simp
next
  fix img :: image and thr step bound x y :: rat and edgeCount totalSamples :: nat
    and topY bottomY :: rat and topColor bottomColor :: rgba and diff :: int
  assume a: "x < bound \<and> 0 < step"
  have "(bound - (x + step)) / step = (bound - x) / step - 1"
    using a by (simp add: field_simps)
  moreover have "0 < (bound - x) / step"
    using a by simp
  ultimately have "nat \<lceil>(bound - (x + step)) / step\<rceil> < nat \<lceil>(bound - x) / step\<rceil>"
    by simp
  then show "((img, thr, step, bound, y, x + step,
                if thr < of_int diff then edgeCount + 1 else edgeCount, totalSamples + 1),
               (img, thr, step, bound, y, x, edgeCount, totalSamples))
             \<in> measure (\<lambda>(img, thr, step, bound, y, x, c). nat \<lceil>(bound - x) / step\<rceil>)"
    by simp
qed

text \<open>\<open>edgeScore = totalSamples > 0 ? edgeCount / totalSamples : 0\<close>.\<close>

definition scoreOf :: "nat \<times> nat \<Rightarrow> rat" where
  "scoreOf counts =
     (if snd counts > 0 then of_nat (fst counts) / of_nat (snd counts) else 0)"

text \<open>
  The outer loops: \<open>for (x = startX; x > endX; x--)\<close> from right to left, and
  \<open>for (y = startY; y > endY; y--)\<close> from bottom to top; a position whose score reaches
  \<open>minEdgeScore\<close> is pushed.
\<close>

function scanColumns :: "image \<Rightarrow> edge_options \<Rightarrow> rat \<Rightarrow> rat \<Rightarrow> edge list \<Rightarrow> edge list" where
  "scanColumns img opts endX x edges =
     (if x > endX then
        (let score = scoreOf (sampleColumn img (edgeThreshold opts) (sampleStep opts)
                        (of_int (img_height img) - marginY opts) x (marginY opts) (0, 0))
         in scanColumns img opts endX (x - 1)
              (if score \<ge> minEdgeScore opts
               then edges @ [\<lparr>edge_pos = x, edgeScore = score, continuity = score\<rparr>]
               else edges))
      else edges)"
  by pat_completeness auto
termination
  by (relation "measure (\<lambda>(img, opts, endX, x, edges). nat \<lceil>x - endX\<rceil>)")
    (simp, simp, linarith)

function scanRows :: "image \<Rightarrow> edge_options \<Rightarrow> rat \<Rightarrow> rat \<Rightarrow> edge list \<Rightarrow> edge list" where
  "scanRows img opts endY y edges =
     (if y > endY then
        (let score = scoreOf (sampleRow img (edgeThreshold opts) (sampleStep opts)
                        (of_int (img_width img) - marginX opts) y (marginX opts) (0, 0))
         in scanRows img opts endY (y - 1)
              (if score \<ge> minEdgeScore opts
               then edges @ [\<lparr>edge_pos = y, edgeScore = score, continuity = score\<rparr>]
               else edges))
      else edges)"
  by pat_completeness auto
termination
  by (relation "measure (\<lambda>(img, opts, endY, y, edges). nat \<lceil>y - endY\<rceil>)")
    (simp, simp, linarith)

text \<open>
  The loops are unfolded by hand in the proofs, one iteration at a time.
\<close>

declare sampleColumn.simps [simp del]
declare sampleRow.simps [simp del]
declare scanColumns.simps [simp del]
declare scanRows.simps [simp del]

text \<open>
  ``Remove duplicates within 5px of each other, keeping highest score'': the first
  kept candidate within 5px of the new one takes over its position and score when the
  new score is higher; a candidate with no such neighbour is appended.
\<close>

fun mergeIntoExisting :: "edge \<Rightarrow> edge list \<Rightarrow> edge list option" where
  "mergeIntoExisting e [] = None"
| "mergeIntoExisting e (existing # rest) =
     (if \<bar>edge_pos existing - edge_pos e\<bar> < 5 then
        Some ((if edgeScore e > edgeScore existing
               then existing\<lparr>edge_pos := edge_pos e, edgeScore := edgeScore e\<rparr>
               else existing) # rest)
      else map_option (Cons existing) (mergeIntoExisting e rest))"

definition removeDuplicates :: "edge list \<Rightarrow> edge list" where
  "removeDuplicates edges =
     fold (\<lambda>e filtered. case mergeIntoExisting e filtered of
                           None \<Rightarrow> filtered @ [e]
                         | Some merged \<Rightarrow> merged) edges []"

text \<open>\<open>sort((a, b) => b.x - a.x)\<close>: a stable sort by position, descending.\<close>

definition sortDescending :: "edge list \<Rightarrow> edge list" where
  "sortDescending edges = sort_key (\<lambda>e. - edge_pos e) edges"

text \<open>
  The result is \<open>None\<close> when the call does not return: the step is not positive and a
  sampling loop is entered.
\<close>

definition findVerticalEdges :: "image \<Rightarrow> edge_options \<Rightarrow> edge list option" where
  "findVerticalEdges img opts =
     (let width = of_int (img_width img);
          height = of_int (img_height img);
          (startX, endX) =
            (if fullWidth opts then (width - marginX opts, marginX opts)
             else case scanRegion opts of
                    Some (centre, extent) \<Rightarrow>
                      (min (width - 5) (centre + extent / 2), max 5 (centre - extent / 2))
                  | None \<Rightarrow> (width - marginX opts, width * (3 / 10)))
      in if startX > endX \<and> marginY opts < height - marginY opts \<and> sampleStep opts \<le> 0
         then None
         else Some (sortDescending (removeDuplicates (scanColumns img opts endX startX []))))"

definition findHorizontalEdges :: "image \<Rightarrow> edge_options \<Rightarrow> edge list option" where
  "findHorizontalEdges img opts =
     (let width = of_int (img_width img);
          height = of_int (img_height img);
          (startY, endY) =
            (case scanRegion opts of
               Some (centre, extent) \<Rightarrow>
                 (min (height - 5) (centre + extent / 2), max 5 (centre - extent / 2))
             | None \<Rightarrow> (height - 5, height * (3 / 10)))
      in if startY > endY \<and> marginX opts < width - marginX opts \<and> sampleStep opts \<le> 0
         then None
         else Some (sortDescending (removeDuplicates (scanRows img opts endY startY []))))"

text \<open>
  The positions the two finders scan and sample. \<open>verticalScanRange\<close> and
  \<open>horizontalScanRange\<close> are the \<open>(start, end)\<close> of the outer loops.
  \<open>noSampledContrastVertical\<close> says that no pair of pixels that \<open>findVerticalEdges\<close>
  compares differs by more than the threshold: at every scanned column
  \<open>x = startX - j > endX\<close> and every sampled row \<open>y = marginY + k * sampleStep
  < height - marginY\<close>, the pixels 3 to the left and 3 to the right of \<open>x\<close> are within the
  threshold of each other. \<open>noSampledContrastHorizontal\<close> is the same for the pairs of
  \<open>findHorizontalEdges\<close>. Pixels that are not sampled are not constrained.
\<close>

definition verticalScanRange :: "image \<Rightarrow> edge_options \<Rightarrow> rat \<times> rat" where
  "verticalScanRange img opts =
     (let width = of_int (img_width img)
      in if fullWidth opts then (width - marginX opts, marginX opts)
         else case scanRegion opts of
                Some (centre, extent) \<Rightarrow>
                  (min (width - 5) (centre + extent / 2), max 5 (centre - extent / 2))
              | None \<Rightarrow> (width - marginX opts, width * (3 / 10)))"

definition horizontalScanRange :: "image \<Rightarrow> edge_options \<Rightarrow> rat \<times> rat" where
  "horizontalScanRange img opts =
     (let height = of_int (img_height img)
      in case scanRegion opts of
           Some (centre, extent) \<Rightarrow>
             (min (height - 5) (centre + extent / 2), max 5 (centre - extent / 2))
         | None \<Rightarrow> (height - 5, height * (3 / 10)))"

definition noSampledContrastVertical :: "image \<Rightarrow> edge_options \<Rightarrow> bool" where
  "noSampledContrastVertical img opts \<longleftrightarrow>
     (\<forall>j k :: nat.
        fst (verticalScanRange img opts) - of_nat j > snd (verticalScanRange img opts) \<and>
        marginY opts + of_nat k * sampleStep opts < of_int (img_height img) - marginY opts \<longrightarrow>
        of_int (colorDiff
          (intToRGBA (getPixelColor img
             (max 0 (fst (verticalScanRange img opts) - of_nat j - 3))
             (marginY opts + of_nat k * sampleStep opts)))
          (intToRGBA (getPixelColor img
             (min (of_int (img_width img) - 1) (fst (verticalScanRange img opts) - of_nat j + 3))
             (marginY opts + of_nat k * sampleStep opts))))
        \<le> edgeThreshold opts)"

definition noSampledContrastHorizontal :: "image \<Rightarrow> edge_options \<Rightarrow> bool" where
  "noSampledContrastHorizontal img opts \<longleftrightarrow>
     (\<forall>j k :: nat.
        fst (horizontalScanRange img opts) - of_nat j > snd (horizontalScanRange img opts) \<and>
        marginX opts + of_nat k * sampleStep opts < of_int (img_width img) - marginX opts \<longrightarrow>
        of_int (colorDiff
          (intToRGBA (getPixelColor img
             (marginX opts + of_nat k * sampleStep opts)
             (max 0 (fst (horizontalScanRange img opts) - of_nat j - 3))))
          (intToRGBA (getPixelColor img
             (marginX opts + of_nat k * sampleStep opts)
             (min (of_int (img_height img) - 1)
                (fst (horizontalScanRange img opts) - of_nat j + 3)))))
        \<le> edgeThreshold opts)"

section \<open>The terminal pane locator (pane-detector.js, findTerminalPane)\<close>

text \<open>
  Step 1, the top separator: the candidates between 30% of the height and the status bar
  threshold \<open>height - 40\<close>, bottom to top; the walk goes up through gaps below
  \<open>MAX_GAP = 100\<close> and stops at a larger gap once more than 80px are gathered.
\<close>

definition topCandidates :: "rat \<Rightarrow> edge list \<Rightarrow> edge list" where
  "topCandidates height horizontalEdges =
     sortDescending
       (filter (\<lambda>e. edge_pos e > height * (3 / 10) \<and> edge_pos e < height - 40) horizontalEdges)"

fun walkUp :: "rat \<Rightarrow> edge \<Rightarrow> edge \<Rightarrow> edge list \<Rightarrow> edge" where
  "walkUp firstY previous topSeparator [] = topSeparator"
| "walkUp firstY previous topSeparator (c # rest) =
     (if \<bar>edge_pos c - edge_pos previous\<bar> < 100 then walkUp firstY c c rest
      else if firstY - edge_pos previous > 80 then topSeparator
      else walkUp firstY c c rest)"

text \<open>
  Step 2, the bottom separator: the candidates more than 100px below the top separator
  and above \<open>height - 5\<close>, bottom to top. The first one is taken, unless it is less than
  25px above the image bottom and the next one up is less than 45px from it; with no
  candidate the fallback is \<open>height - 25\<close>.
\<close>

definition bottomCandidates :: "rat \<Rightarrow> rat \<Rightarrow> edge list \<Rightarrow> edge list" where
  "bottomCandidates height topY horizontalEdges =
     sortDescending
       (filter (\<lambda>e. edge_pos e > topY + 100 \<and> edge_pos e < height - 5) horizontalEdges)"

definition selectBottomSeparator :: "rat \<Rightarrow> rat \<Rightarrow> edge list \<Rightarrow> rat" where
  "selectBottomSeparator height topY horizontalEdges =
     (case bottomCandidates height topY horizontalEdges of
        [] \<Rightarrow> height - 25
      | [b0] \<Rightarrow> edge_pos b0
      | b0 # b1 # rest \<Rightarrow>
          (if height - edge_pos b0 < 25 \<and> \<bar>edge_pos b1 - edge_pos b0\<bar> < 45
           then edge_pos b1 else edge_pos b0))"

text \<open>
  The horizontal slice \<open>[topSeparator.y, bottomSeparatorY]\<close> of the terminal pane, or
  \<open>None\<close> where the source returns \<open>null\<close> (\<open>MIN_TERMINAL_HEIGHT = 120\<close>). Step 3 of the
  source looks for the left and right separators inside this slice; it decides \<open>x\<close> and
  \<open>width\<close> of the result only and is not part of the model.
\<close>

record terminal_slice =
  slice_top :: rat
  slice_bottom :: rat

definition terminalSlice :: "rat \<Rightarrow> edge list \<Rightarrow> terminal_slice option" where
  "terminalSlice height horizontalEdges =
     (if horizontalEdges = [] then None
      else case topCandidates height horizontalEdges of
             [] \<Rightarrow> None
           | c0 # rest \<Rightarrow>
               (let topSeparator = walkUp (edge_pos c0) c0 c0 rest;
                    bottomSeparatorY =
                      selectBottomSeparator height (edge_pos topSeparator) horizontalEdges;
                    finalSliceHeight = bottomSeparatorY - edge_pos topSeparator
                in if finalSliceHeight < 120 then None
                   else if finalSliceHeight < 30 then None
                   else Some \<lparr>slice_top = edge_pos topSeparator,
                              slice_bottom = bottomSeparatorY\<rparr>))"

text \<open>
  \<open>findTerminalPane\<close> up to the slice: the horizontal edges are found with
  \<open>minEdgeScore 0.50\<close>, \<open>edgeThreshold 20\<close> and the adaptive sample step; the outer
  \<open>None\<close> is a call that does not return.
\<close>

definition findTerminalPane_slice ::
  "bool \<Rightarrow> image \<Rightarrow> (rat \<times> rat) option \<Rightarrow> terminal_slice option option" where
  "findTerminalPane_slice lowResourceMode img region =
     (let edgeOptions =
            \<lparr>minEdgeScore = 5 / 10, edgeThreshold = 20,
             sampleStep = getLowResourceSampleStep lowResourceMode 8,
             marginX = 30, marginY = 30, fullWidth = False, scanRegion = region\<rparr>
      in map_option (terminalSlice (of_int (img_height img)))
           (findHorizontalEdges img edgeOptions))"

section \<open>The capture tick (StreamEngine.captureAndEmit)\<close>

text \<open>
  What the outside world gives during one tick. Images (\<open>'img\<close>) and encoded frames
  (\<open>'f\<close>) belong to the image library, and every one of its operations may throw:
  \<open>env_snapshot\<close> is \<open>screenshot()\<close> followed by \<open>Jimp.read\<close> (the image with its width
  and height), \<open>env_crop\<close> is \<open>crop\<close>, \<open>env_scale\<close> is \<open>scale\<close>, \<open>env_getBuffer\<close> is
  the JPEG encoding at a quality. \<open>env_locate\<close> is what the Pane Locators yield on a
  client image, \<open>env_hasSocket\<close> whether the transport still has the socket of a client,
  \<open>env_now\<close> the clock while that client is processed, \<open>env_logical\<close> the logical
  screen size.
\<close>

record ('img, 'f) tick_env =
  env_lowResource :: low_resource
  env_global :: global_config
  env_logical :: "int \<times> int"
  env_now :: "string \<Rightarrow> int"
  env_snapshot :: "tick_error + 'img \<times> int \<times> int"
  env_hasSocket :: "string \<Rightarrow> bool"
  env_crop :: "'img \<Rightarrow> region \<Rightarrow> tick_error + 'img"
  env_scale :: "'img \<Rightarrow> rat \<Rightarrow> tick_error + 'img"
  env_getBuffer :: "'img \<Rightarrow> rat \<Rightarrow> tick_error + 'f"
  env_locate :: "'img \<Rightarrow> locator"

text \<open>
  ``Apply Stable Crops'': the rectangle cut out of the client image, if any, and the
  final absolute region.
\<close>

definition stableCrop :: "client_state \<Rightarrow> region \<Rightarrow> region option \<times> region" where
  "stableCrop state base =
     (if viewMode state = Chat \<and> stablePaneX state > 0 then
        (let paneW = region_w base - stablePaneX state
         in (Some \<lparr>region_x = stablePaneX state, region_y = 0,
                    region_w = paneW, region_h = region_h base\<rparr>,
             \<lparr>region_x = region_x base + stablePaneX state, region_y = region_y base,
              region_w = paneW, region_h = region_h base\<rparr>))
      else if viewMode state = Terminal \<and> stablePaneY state > 0 then
        (let cropX = (if stablePaneX state > 0 then stablePaneX state else 0);
             cropW = (if stablePaneW state > 0 then stablePaneW state else region_w base - cropX);
             cropH = (if stablePaneH state > 0 then stablePaneH state
                      else region_h base - stablePaneY state)
         in (Some \<lparr>region_x = cropX, region_y = stablePaneY state,
                    region_w = cropW, region_h = cropH\<rparr>,
             \<lparr>region_x = region_x base + cropX, region_y = region_y base + stablePaneY state,
              region_w = cropW, region_h = cropH\<rparr>))
      else (None, base))"

text \<open>``User Manual Config Crop'': applied only when something is left to display.\<close>

definition manualCrop :: "effective_config \<Rightarrow> region \<Rightarrow> region option" where
  "manualCrop effectiveConfig final =
     (let displayW = region_w final - cropLeft effectiveConfig - cropRight effectiveConfig;
          displayH = region_h final - cropTop effectiveConfig - cropBottom effectiveConfig
      in if displayH > 0 \<and> displayW > 0
         then Some \<lparr>region_x = cropLeft effectiveConfig, region_y = cropTop effectiveConfig,
                    region_w = displayW, region_h = displayH\<rparr>
         else None)"

definition cropIf ::
  "('img, 'f) tick_env \<Rightarrow> 'img \<Rightarrow> region option \<Rightarrow> tick_error + 'img" where
  "cropIf env img rect = (case rect of None \<Rightarrow> Inr img | Some r \<Rightarrow> env_crop env img r)"

text \<open>
  The outcome of the loop body for one client: \<open>continue\<close> for want of a socket, a
  frame emitted, or an exception thrown out of the body.
\<close>

datatype 'f client_outcome = NoSocket | Frame 'f | Failed tick_error

text \<open>
  The body of \<open>for (const state of activeLinkClients)\<close>. The state returned is the
  client's state when the body ends or throws.
\<close>

definition processClient ::
  "('img, 'f) tick_env \<Rightarrow> engine \<Rightarrow> 'img \<Rightarrow> int \<Rightarrow> int \<Rightarrow> client \<Rightarrow> client_state \<times> 'f client_outcome" where
  "processClient env eng mainImage screenWidth screenHeight c =
     (let state = fst c in
      if \<not> env_hasSocket env (socketId state) then (state, NoSocket)
      else
        (let effectiveConfig = getEffectiveConfig (env_global env) (snd c) (viewMode state);
             dpiScale = getDpiScale (fst (env_logical env)) (snd (env_logical env))
                          screenWidth screenHeight;
             base = clip screenWidth screenHeight
                      (baseRegion dpiScale (detectedWindow state) (globalDetectedWindow eng)
                         (screenConfig (env_global env)))
         in case env_crop env mainImage base of
              Inl e \<Rightarrow> (state, Failed e)
            | Inr clientImage \<Rightarrow>
               (let det =
                  (if detectedWindow state \<noteq> None \<and>
                      (viewMode state = Chat \<or> viewMode state = Terminal)
                   then performPaneDetection (env_now env (socketId state))
                          (eff_fixed effectiveConfig) (env_locate env clientImage) state
                   else \<lparr>state_after = state, locatorCalls = 0, thrown = None\<rparr>)
                in case thrown det of
                     Some e \<Rightarrow> (state_after det, Failed e)
                   | None \<Rightarrow>
                      (let state1 = state_after det;
                           cropped = stableCrop state1 base
                       in case cropIf env clientImage (fst cropped) of
                            Inl e \<Rightarrow> (state1, Failed e)
                          | Inr paneImage \<Rightarrow>
                             (let state2 = state1\<lparr>lastCaptureArea := Some (snd cropped)\<rparr>
                              in case cropIf env paneImage
                                        (manualCrop effectiveConfig (snd cropped)) of
                                   Inl e \<Rightarrow> (state2, Failed e)
                                 | Inr displayImage \<Rightarrow>
                                    (let lowResourceMode = isLowResourceMode (env_lowResource env);
                                         quality = (if lowResourceMode
                                                    then getEffectiveQuality (env_lowResource env)
                                                    else eff_quality effectiveConfig);
                                         downscale = getImageDownscale (env_lowResource env)
                                     in case (if lowResourceMode \<and> downscale < 1
                                              then env_scale env displayImage downscale
                                              else Inr displayImage) of
                                          Inl e \<Rightarrow> (state2, Failed e)
                                        | Inr scaledImage \<Rightarrow>
                                           (case env_getBuffer env scaledImage quality of
                                              Inl e \<Rightarrow> (state2, Failed e)
                                            | Inr buffer \<Rightarrow> (state2, Frame buffer))))))))"

text \<open>
  The loop over the eligible clients, in insertion order. The clients of the tick are
  given by their socket ids (\<open>ids\<close>); the others are passed over. A thrown error leaves
  the loop: the clients after the failing one are not processed. The result is the
  clients, the frames emitted as (socket id, frame), and the error thrown, if any.
\<close>

fun clientLoop ::
  "('img, 'f) tick_env \<Rightarrow> engine \<Rightarrow> 'img \<Rightarrow> int \<Rightarrow> int \<Rightarrow> string list \<Rightarrow> client list \<Rightarrow>
   client list \<times> (string \<times> 'f) list \<times> tick_error option" where
  "clientLoop env eng mainImage sw sh ids [] = ([], [], None)"
| "clientLoop env eng mainImage sw sh ids (c # cs) =
     (if socketId (fst c) \<notin> set ids then
        (let (cs', frames, err) = clientLoop env eng mainImage sw sh ids cs
         in (c # cs', frames, err))
      else
        (case processClient env eng mainImage sw sh c of
           (state', Failed e) \<Rightarrow> ((state', snd c) # cs, [], Some e)
         | (state', NoSocket) \<Rightarrow>
             (let (cs', frames, err) = clientLoop env eng mainImage sw sh ids cs
              in ((state', snd c) # cs', frames, err))
         | (state', Frame buffer) \<Rightarrow>
             (let (cs', frames, err) = clientLoop env eng mainImage sw sh ids cs
              in ((state', snd c) # cs', (socketId (fst c), buffer) # frames, err))))"

text \<open>
  The scheduler and its clients. \<open>w_pending\<close> holds the clients of the tick whose work
  is suspended at an \<open>await\<close>; \<open>w_captures\<close> counts the calls of \<open>screenshot()\<close>,
  \<open>w_completed\<close> the ticks whose work has ended, \<open>w_emitted\<close> lists the frames sent and
  \<open>w_log\<close> the errors logged by the \<open>catch\<close>.
\<close>

record 'f world =
  w_engine :: engine
  w_clients :: "client list"
  w_pending :: "string list option"
  w_captures :: nat
  w_completed :: nat
  w_emitted :: "(string \<times> 'f) list"
  w_log :: "tick_error list"

text \<open>\<open>activeLinkClients\<close>.\<close>

definition activeLinkClients :: "client list \<Rightarrow> client list" where
  "activeLinkClients clients =
     filter (\<lambda>c. isActive (fst c) \<and> streamingMode (viewMode (fst c))) clients"

text \<open>
  A timer tick calls \<open>captureAndEmit\<close>, which runs up to its first \<open>await\<close>: the
  in-flight guard, the eligibility filter, and the call of \<open>screenshot()\<close>.
\<close>

definition captureAndEmit_start :: "'f world \<Rightarrow> 'f world" where
  "captureAndEmit_start w =
     (if isCapturing (w_engine w) then w
      else if activeLinkClients (w_clients w) = []
      then w\<lparr>w_engine := (w_engine w)\<lparr>isCapturing := False\<rparr>\<rparr>
      else w\<lparr>w_engine := (w_engine w)\<lparr>isCapturing := True\<rparr>,
             w_pending := Some (map (\<lambda>c. socketId (fst c)) (activeLinkClients (w_clients w))),
             w_captures := w_captures w + 1\<rparr>)"

text \<open>
  The rest of the suspended tick: the snapshot arrives or fails, the clients are
  processed, an error is caught and logged, and \<open>finally\<close> clears the flag.
\<close>

definition captureAndEmit_finish :: "('img, 'f) tick_env \<Rightarrow> 'f world \<Rightarrow> 'f world" where
  "captureAndEmit_finish env w =
     (case w_pending w of
        None \<Rightarrow> w
      | Some ids \<Rightarrow>
         (case env_snapshot env of
            Inl e \<Rightarrow>
              w\<lparr>w_engine := (w_engine w)\<lparr>isCapturing := False\<rparr>, w_pending := None,
                w_completed := w_completed w + 1, w_log := w_log w @ [e]\<rparr>
          | Inr (mainImage, screenWidth, screenHeight) \<Rightarrow>
              (let r = clientLoop env (w_engine w) mainImage screenWidth screenHeight ids
                         (w_clients w)
               in w\<lparr>w_engine := (w_engine w)\<lparr>isCapturing := False\<rparr>, w_pending := None,
                     w_completed := w_completed w + 1,
                     w_clients := fst r,
                     w_emitted := w_emitted w @ fst (snd r),
                     w_log := w_log w @ (case snd (snd r) of None \<Rightarrow> [] | Some e \<Rightarrow> [e])\<rparr>)))"

text \<open>
  What happens on the event loop: the capture timer fires, the suspended work of a tick
  ends, or a handler of a client event changes the clients.
\<close>

datatype ('img, 'f) event =
    TimerTick
  | TickDone "('img, 'f) tick_env"
  | ClientEvent "client list \<Rightarrow> client list"

fun handleEvent :: "('img, 'f) event \<Rightarrow> 'f world \<Rightarrow> 'f world" where
  "handleEvent TimerTick w = captureAndEmit_start w"
| "handleEvent (TickDone env) w = captureAndEmit_finish env w"
| "handleEvent (ClientEvent handler) w = w\<lparr>w_clients := handler (w_clients w)\<rparr>"

definition run :: "('img, 'f) event list \<Rightarrow> 'f world \<Rightarrow> 'f world" where
  "run events w = fold handleEvent events w"

text \<open>The engine after \<open>start()\<close> with the given clients, nothing in flight.\<close>

definition startedWorld :: "rat \<Rightarrow> client list \<Rightarrow> 'f world" where
  "startedWorld period clients =
     \<lparr>w_engine = \<lparr>isStreaming = True, streamInterval = Some period, isCapturing = False,
                  globalDetectedWindow = None\<rparr>,
      w_clients = clients, w_pending = None, w_captures = 0, w_completed = 0,
      w_emitted = [], w_log = []\<rparr>"

text \<open>
  A stand-in for the image library, for concrete runs: an image is the region of the
  snapshot it shows, a crop that is empty, negative or outside the image throws, and a
  frame is the region encoded with its quality. The snapshot is 1920 x 1080 at DPI
  scale 1, every client has a socket, and no pane is found.
\<close>

definition regionCrop :: "region \<Rightarrow> region \<Rightarrow> tick_error + region" where
  "regionCrop img r =
     (if 0 \<le> region_x r \<and> 0 \<le> region_y r \<and> 0 < region_w r \<and> 0 < region_h r \<and>
         region_x r + region_w r \<le> region_w img \<and> region_y r + region_h r \<le> region_h img
      then Inr \<lparr>region_x = region_x img + region_x r, region_y = region_y img + region_y r,
                region_w = region_w r, region_h = region_h r\<rparr>
      else Inl CropError)"

definition regionEnv :: "(region, region \<times> rat) tick_env" where
  "regionEnv =
     \<lparr>env_lowResource = lowResourceOff, env_global = defaultGlobal,
      env_logical = (1920, 1080), env_now = (\<lambda>sid. 0),
      env_snapshot = Inr (\<lparr>region_x = 0, region_y = 0, region_w = 1920, region_h = 1080\<rparr>,
                          1920, 1080),
      env_hasSocket = (\<lambda>sid. True),
      env_crop = regionCrop,
      env_scale = (\<lambda>img factor. Inr img),
      env_getBuffer = (\<lambda>img quality. Inr (img, quality)),
      env_locate = (\<lambda>img. \<lparr>findChatPaneStructural = Inr None, findTerminalPane = Inr None\<rparr>)\<rparr>"

text \<open>
  At most one tick is in flight: the flag is set exactly while the work of a tick is
  suspended, and every capture but the one in flight has completed.
\<close>

definition atMostOneInFlight :: "'f world \<Rightarrow> bool" where
  "atMostOneInFlight w \<longleftrightarrow>
     (isCapturing (w_engine w) \<longleftrightarrow> w_pending w \<noteq> None) \<and>
     w_captures w = w_completed w + (if isCapturing (w_engine w) then 1 else 0)"

text \<open>
  Two chat clients with detected windows on the screen, and an image library whose
  encoder throws on the frame of the first one.
\<close>

definition firstClient :: client where
  "firstClient =
     ((createDefaultClientState ''first'')
        \<lparr>detectedWindow :=
           Some \<lparr>bounds_x = 100, bounds_y = 100, bounds_width = 800, bounds_height = 600\<rparr>\<rparr>,
      clientDefaults)"

definition secondClient :: client where
  "secondClient =
     ((createDefaultClientState ''second'')
        \<lparr>detectedWindow :=
           Some \<lparr>bounds_x = 500, bounds_y = 100, bounds_width = 800, bounds_height = 600\<rparr>\<rparr>,
      clientDefaults)"

definition encoderFailsOnFirst :: "(region, region \<times> rat) tick_env" where
  "encoderFailsOnFirst =
     regionEnv\<lparr>env_getBuffer :=
       (\<lambda>img quality. if region_x img = 100 then Inl EncodeError else Inr (img, quality))\<rparr>"

section \<open>The worker channel (WindowDetectorWorker)\<close>




















section \<open>Properties: clipping of the base region\<close>

lemma Math_round_of_int [simp]: "Math_round (of_int n) = n"
  unfolding Math_round_def by linarith

lemma Math_round_numeral [simp]: "Math_round (numeral k) = numeral k"
  using Math_round_of_int [of "numeral k"] by simp

lemma Math_round_zero [simp]: "Math_round 0 = 0"
  using Math_round_of_int [of 0] by simp

lemma clip_origin_and_far_edges:
  "0 \<le> region_x (clip sw sh r) \<and> 0 \<le> region_y (clip sw sh r) \<and>
   region_x (clip sw sh r) + region_w (clip sw sh r) \<le> sw \<and>
   region_y (clip sw sh r) + region_h (clip sw sh r) \<le> sh"
  by (simp add: clip_def Let_def)

text \<open>
  C10, evaluated on the code. A 1920 x 1080 snapshot at DPI scale 1 and a detected window
  at logical position (2000, 100) of size 800 x 600, that is, beyond the right edge of the
  captured screen: the clipped region has width \<open>1920 - 2000 = -80\<close>, so the rectangle
  handed to the crop is not inside the snapshot (its width is not positive).
\<close>

theorem clip_window_beyond_right_edge:
  "clip 1920 1080
     (baseRegion (getDpiScale 1920 1080 1920 1080)
        (Some \<lparr>bounds_x = 2000, bounds_y = 100, bounds_width = 800, bounds_height = 600\<rparr>)
        None
        \<lparr>bounds_x = 0, bounds_y = 0, bounds_width = 800, bounds_height = 600\<rparr>)
   = \<lparr>region_x = 2000, region_y = 100, region_w = - 80, region_h = 600\<rparr>
   \<and> \<not> insideSnapshot 1920 1080
       (clip 1920 1080
          (baseRegion (getDpiScale 1920 1080 1920 1080)
             (Some \<lparr>bounds_x = 2000, bounds_y = 100, bounds_width = 800, bounds_height = 600\<rparr>)
             None
             \<lparr>bounds_x = 0, bounds_y = 0, bounds_width = 800, bounds_height = 600\<rparr>))"
  by (simp add: clip_def baseRegion_def scaleBounds_def getDpiScale_def insideSnapshot_def Let_def)

section \<open>Properties: the detection state machine\<close>

lemma calibrationPrologue_keeps [simp]:
  "viewMode (calibrationPrologue now s) = viewMode s"
  "stablePaneX (calibrationPrologue now s) = stablePaneX s"
  "stablePaneY (calibrationPrologue now s) = stablePaneY s"
  "stablePaneW (calibrationPrologue now s) = stablePaneW s"
  "stablePaneH (calibrationPrologue now s) = stablePaneH s"
  "lastPaneX (calibrationPrologue now s) = lastPaneX s"
  "lastPaneY (calibrationPrologue now s) = lastPaneY s"
  "stabilityCount (calibrationPrologue now s) = stabilityCount s"
  "fixedChatZone (calibrationPrologue now s) = fixedChatZone s"
  "fixedTerminalZone (calibrationPrologue now s) = fixedTerminalZone s"
  "frameCount (calibrationPrologue now s) = frameCount s + 1"
  by (simp_all add: calibrationPrologue_def Let_def split: option.split)

lemma calibrationPrologue_off:
  "\<not> calibrationMode s \<Longrightarrow> calibrationPrologue now s = s\<lparr>frameCount := frameCount s + 1\<rparr>"
  by (simp add: calibrationPrologue_def Let_def split: option.split)

text \<open>While no stable chat pane is committed, every step calls the chat locator.\<close>

lemma searching_chat_step:
  assumes "viewMode s = Chat" and "stablePaneX s = - 1"
  shows "performPaneDetection now fx (chatFound w h x) s =
           \<lparr>state_after = chatObservation fx
               \<lparr>pane_x = x, pane_y = 0, pane_width = w - x, pane_height = h\<rparr>
               (calibrationPrologue now s),
            locatorCalls = 1, thrown = None\<rparr>"
  using assms
  by (simp add: performPaneDetection_def Let_def fastExit_def shouldRunDetection_def chatFound_def)

lemma chatObservation_anchor:
  assumes "\<bar>x - lastPaneX s\<bar> \<ge> 5"
  shows "chatObservation fx \<lparr>pane_x = x, pane_y = a, pane_width = b, pane_height = c\<rparr> s =
           s\<lparr>stabilityCount := 0, lastPaneX := x\<rparr>"
  using assms by (simp add: chatObservation_def Let_def)

lemma chatObservation_agree_below_quorum:
  assumes "\<bar>x - lastPaneX s\<bar> < 5" and "stabilityCount s + 1 < 3"
  shows "chatObservation fx \<lparr>pane_x = x, pane_y = a, pane_width = b, pane_height = c\<rparr> s =
           s\<lparr>stabilityCount := stabilityCount s + 1\<rparr>"
  using assms by (simp add: chatObservation_def Let_def)

lemma chatObservation_agree_quorum:
  assumes "\<bar>x - lastPaneX s\<bar> < 5" and "stabilityCount s + 1 \<ge> 3"
  shows "chatObservation fx \<lparr>pane_x = x, pane_y = a, pane_width = b, pane_height = c\<rparr> s =
           (if fx then s\<lparr>stabilityCount := stabilityCount s + 1, stablePaneX := lastPaneX s,
                          fixedChatZone := Some (lastPaneX s), calibrationMode := False\<rparr>
            else s\<lparr>stabilityCount := stabilityCount s + 1, stablePaneX := lastPaneX s\<rparr>)"
  using assms by (simp add: chatObservation_def Let_def)

text \<open>
  The run of a chat client from the default state over an anchor and three agreeing
  results, and the reset by a disagreeing result.
\<close>

lemma default_chat_run:
  assumes "4 \<le> x0" and "\<bar>x1 - x0\<bar> < 5" and "\<bar>x2 - x0\<bar> < 5" and "\<bar>x3 - x0\<bar> < 5"
    and "viewMode s = Chat" and "stablePaneX s = - 1" and "\<bar>y - lastPaneX s\<bar> \<ge> 5"
  shows "stablePaneX (fst (runDetections fx
            [(t0, chatFound w h x0), (t1, chatFound w h x1), (t2, chatFound w h x2)]
            (createDefaultClientState sid))) = - 1 \<and>
         stabilityCount (fst (runDetections fx
            [(t0, chatFound w h x0), (t1, chatFound w h x1), (t2, chatFound w h x2)]
            (createDefaultClientState sid))) = 2 \<and>
         stablePaneX (fst (runDetections fx
            [(t0, chatFound w h x0), (t1, chatFound w h x1), (t2, chatFound w h x2),
             (t3, chatFound w h x3)]
            (createDefaultClientState sid))) = x0 \<and>
         stabilityCount (fst (runDetections fx
            [(t0, chatFound w h x0), (t1, chatFound w h x1), (t2, chatFound w h x2),
             (t3, chatFound w h x3)]
            (createDefaultClientState sid))) = 3 \<and>
         (fx \<longrightarrow>
            locked (fst (runDetections fx
              [(t0, chatFound w h x0), (t1, chatFound w h x1), (t2, chatFound w h x2),
               (t3, chatFound w h x3)]
              (createDefaultClientState sid))) \<and>
            fixedChatZone (fst (runDetections fx
              [(t0, chatFound w h x0), (t1, chatFound w h x1), (t2, chatFound w h x2),
               (t3, chatFound w h x3)]
              (createDefaultClientState sid))) = Some x0) \<and>
         stabilityCount (state_after (performPaneDetection now fx (chatFound w h y) s)) = 0 \<and>
         lastPaneX (state_after (performPaneDetection now fx (chatFound w h y) s)) = y"
proof -
  define s0 where "s0 = createDefaultClientState sid"
  define s1 where "s1 = state_after (performPaneDetection t0 fx (chatFound w h x0) s0)"
  define s2 where "s2 = state_after (performPaneDetection t1 fx (chatFound w h x1) s1)"
  define s3 where "s3 = state_after (performPaneDetection t2 fx (chatFound w h x2) s2)"
  define s4 where "s4 = state_after (performPaneDetection t3 fx (chatFound w h x3) s3)"
  have p0: "viewMode s0 = Chat" "stablePaneX s0 = - 1" "lastPaneX s0 = - 1" "stabilityCount s0 = 0"
    by (simp_all add: s0_def createDefaultClientState_def)
  have p1: "viewMode s1 = Chat" "stablePaneX s1 = - 1" "lastPaneX s1 = x0" "stabilityCount s1 = 0"
    using assms(1) p0
    by (simp_all add: s1_def searching_chat_step chatObservation_anchor)
  have p2: "viewMode s2 = Chat" "stablePaneX s2 = - 1" "lastPaneX s2 = x0" "stabilityCount s2 = 1"
    using assms(2) p1
    by (simp_all add: s2_def searching_chat_step chatObservation_agree_below_quorum)
  have p3: "viewMode s3 = Chat" "stablePaneX s3 = - 1" "lastPaneX s3 = x0" "stabilityCount s3 = 2"
    using assms(3) p2
    by (simp_all add: s3_def searching_chat_step chatObservation_agree_below_quorum)
  have p4: "stablePaneX s4 = x0" "stabilityCount s4 = 3"
    "fx \<longrightarrow> locked s4 \<and> fixedChatZone s4 = Some x0"
    using assms(1,4) p3
    by (simp_all add: s4_def searching_chat_step chatObservation_agree_quorum locked_def)
  have reset: "stabilityCount (state_after (performPaneDetection now fx (chatFound w h y) s)) = 0"
    "lastPaneX (state_after (performPaneDetection now fx (chatFound w h y) s)) = y"
    using assms(5,6,7) by (simp_all add: searching_chat_step chatObservation_anchor)
  have run3: "fst (runDetections fx
            [(t0, chatFound w h x0), (t1, chatFound w h x1), (t2, chatFound w h x2)]
            (createDefaultClientState sid)) = s3"
    by (simp add: s0_def s1_def s2_def s3_def Let_def split_beta)
  have run4: "fst (runDetections fx
            [(t0, chatFound w h x0), (t1, chatFound w h x1), (t2, chatFound w h x2),
             (t3, chatFound w h x3)]
            (createDefaultClientState sid)) = s4"
    by (simp add: s0_def s1_def s2_def s3_def s4_def Let_def split_beta)
  show ?thesis
    unfolding run3 run4 using p3 p4 reset by simp
qed

text \<open>
  C2 as stated fails on the code. From the default client state the locator results
  620, 622, 619 leave \<open>stabilityCount = 2\<close> and \<open>stablePaneX = -1\<close>: the first result only
  replaces the anchor \<open>lastPaneX\<close> (it differs from \<open>-1\<close>), so three results give two
  agreements. A fourth agreeing result commits the anchor 620, not the last observed
  value. And 621 after 616 differs from the previous observation by 5, yet the counter
  is not reset, because both are within 5 of the anchor 620.
\<close>

theorem stability_three_results_counterexample:
  "stablePaneX (fst (runDetections False
      [(0, chatFound 1000 800 620), (100, chatFound 1000 800 622), (200, chatFound 1000 800 619)]
      (createDefaultClientState ''phone''))) = - 1
   \<and> stablePaneX (fst (runDetections False
      [(0, chatFound 1000 800 620), (100, chatFound 1000 800 622), (200, chatFound 1000 800 619)]
      (createDefaultClientState ''phone''))) \<noteq> 619
   \<and> stablePaneX (fst (runDetections False
      [(0, chatFound 1000 800 620), (100, chatFound 1000 800 622), (200, chatFound 1000 800 619),
       (300, chatFound 1000 800 619)]
      (createDefaultClientState ''phone''))) = 620
   \<and> stabilityCount (fst (runDetections False
      [(0, chatFound 1000 800 620), (100, chatFound 1000 800 616), (200, chatFound 1000 800 621)]
      (createDefaultClientState ''phone''))) = 2"
proof -
  have a: "(4::int) \<le> 620" "\<bar>622 - 620\<bar> < (5::int)" "\<bar>619 - 620\<bar> < (5::int)"
    "\<bar>616 - 620\<bar> < (5::int)" "\<bar>621 - 620\<bar> < (5::int)"
    by simp_all
  have s: "viewMode (createDefaultClientState ''phone'') = Chat"
    "stablePaneX (createDefaultClientState ''phone'') = - 1"
    "\<bar>620 - lastPaneX (createDefaultClientState ''phone'')\<bar> \<ge> 5"
    by (simp_all add: createDefaultClientState_def)
  show ?thesis
    using default_chat_run [OF a(1) a(2) a(3) a(3) s, where fx = False and ?t0.0 = 0
        and ?t1.0 = 100 and ?t2.0 = 200 and ?t3.0 = 300 and w = 1000 and h = 800
        and sid = "''phone''"]
      default_chat_run [OF a(1) a(4) a(5) a(3) s, where fx = False and ?t0.0 = 0
        and ?t1.0 = 100 and ?t2.0 = 200 and ?t3.0 = 300 and w = 1000 and h = 800
        and sid = "''phone''"]
    by simp
qed

text \<open>
  C2, amended. A client in chat mode starts from the default detection state
  (\<open>lastPaneX = stablePaneX = -1\<close>, \<open>stabilityCount = 0\<close>). The first locator result
  \<open>x0\<close> (at least 4, so that it differs from \<open>-1\<close> by 5 or more) becomes the anchor
  \<open>lastPaneX\<close>; results within less than 5px of the anchor count as agreements and
  leave the anchor alone. After the anchor and two agreements the counter is 2 and nothing
  is committed; the third agreement (the fourth result) commits \<open>stablePaneX = x0\<close>, the
  anchor, with \<open>stabilityCount = 3\<close>, whatever the clock readings; in fixed mode the zone is
  saved in \<open>fixedChatZone\<close> and the client is locked. While nothing is committed, a result
  that differs from the anchor by 5px or more resets the counter to 0 and becomes the
  new anchor.
\<close>

theorem stability_commit_after_anchor_and_three_agreements:
  assumes "4 \<le> x0" and "\<bar>x1 - x0\<bar> < 5" and "\<bar>x2 - x0\<bar> < 5" and "\<bar>x3 - x0\<bar> < 5"
    and "viewMode s = Chat" and "stablePaneX s = - 1" and "\<bar>y - lastPaneX s\<bar> \<ge> 5"
  shows "stablePaneX (fst (runDetections fx
            [(t0, chatFound w h x0), (t1, chatFound w h x1), (t2, chatFound w h x2)]
            (createDefaultClientState sid))) = - 1 \<and>
         stabilityCount (fst (runDetections fx
            [(t0, chatFound w h x0), (t1, chatFound w h x1), (t2, chatFound w h x2)]
            (createDefaultClientState sid))) = 2 \<and>
         stablePaneX (fst (runDetections fx
            [(t0, chatFound w h x0), (t1, chatFound w h x1), (t2, chatFound w h x2),
             (t3, chatFound w h x3)]
            (createDefaultClientState sid))) = x0 \<and>
         stabilityCount (fst (runDetections fx
            [(t0, chatFound w h x0), (t1, chatFound w h x1), (t2, chatFound w h x2),
             (t3, chatFound w h x3)]
            (createDefaultClientState sid))) = 3 \<and>
         (fx \<longrightarrow>
            locked (fst (runDetections fx
              [(t0, chatFound w h x0), (t1, chatFound w h x1), (t2, chatFound w h x2),
               (t3, chatFound w h x3)]
              (createDefaultClientState sid))) \<and>
            fixedChatZone (fst (runDetections fx
              [(t0, chatFound w h x0), (t1, chatFound w h x1), (t2, chatFound w h x2),
               (t3, chatFound w h x3)]
              (createDefaultClientState sid))) = Some x0) \<and>
         stabilityCount (state_after (performPaneDetection now fx (chatFound w h y) s)) = 0 \<and>
         lastPaneX (state_after (performPaneDetection now fx (chatFound w h y) s)) = y"
  by (rule default_chat_run [OF assms])

theorem stability_commit_witness:
  "stablePaneX (fst (runDetections True
      [(0, chatFound 1000 800 620), (100, chatFound 1000 800 622), (200, chatFound 1000 800 619),
       (300, chatFound 1000 800 621)]
      (createDefaultClientState ''phone''))) = 620 \<and>
   locked (fst (runDetections True
      [(0, chatFound 1000 800 620), (100, chatFound 1000 800 622), (200, chatFound 1000 800 619),
       (300, chatFound 1000 800 621)]
      (createDefaultClientState ''phone''))) \<and>
   stabilityCount (state_after (performPaneDetection 400 True (chatFound 1000 800 700)
      ((createDefaultClientState ''phone'')\<lparr>lastPaneX := 620, stabilityCount := 2\<rparr>))) = 0"
proof -
  have h: "(4::int) \<le> 620" "\<bar>622 - 620\<bar> < (5::int)" "\<bar>619 - 620\<bar> < (5::int)"
    "\<bar>621 - 620\<bar> < (5::int)"
    "viewMode ((createDefaultClientState ''phone'')\<lparr>lastPaneX := 620, stabilityCount := 2\<rparr>) = Chat"
    "stablePaneX ((createDefaultClientState ''phone'')\<lparr>lastPaneX := 620, stabilityCount := 2\<rparr>) = - 1"
    "\<bar>700 - lastPaneX ((createDefaultClientState ''phone'')\<lparr>lastPaneX := 620, stabilityCount := 2\<rparr>)\<bar> \<ge> 5"
    by (simp_all add: createDefaultClientState_def)
  show ?thesis
    using stability_commit_after_anchor_and_three_agreements [OF h,
        where fx = True and ?t0.0 = 0 and ?t1.0 = 100 and ?t2.0 = 200 and ?t3.0 = 300
          and w = 1000 and h = 800 and sid = "''phone''" and now = 400]
    by simp
qed

text \<open>A locked client in fixed mode: the step only counts the frame.\<close>

lemma locked_step:
  assumes "locked s"
  shows "performPaneDetection now True loc s =
           \<lparr>state_after = s\<lparr>frameCount := frameCount s + 1\<rparr>, locatorCalls = 0, thrown = None\<rparr>"
  using assms
  by (auto simp add: performPaneDetection_def Let_def fastExit_def locked_def calibrationPrologue_off)

lemma locked_frameCount: "locked (s\<lparr>frameCount := n\<rparr>) = locked s"
  by (simp add: locked_def)

lemma locked_run:
  "locked s \<Longrightarrow>
   runDetections True ticks s = (s\<lparr>frameCount := frameCount s + int (length ticks)\<rparr>, 0)"
proof (induction ticks arbitrary: s)
  case Nil
  then show ?case by simp
next
  case (Cons t ticks)
  obtain now loc where t: "t = (now, loc)" by (cases t)
  have l: "locked (s\<lparr>frameCount := frameCount s + 1\<rparr>)"
    using Cons.prems by (simp add: locked_frameCount)
  show ?case
    using Cons.IH [OF l] by (simp add: t locked_step [OF Cons.prems] add.assoc)
qed

text \<open>After \<open>calibration:reset\<close> the next step of a chat or terminal client calls a locator.\<close>

lemma reset_runs_locator:
  assumes "viewMode s = Chat \<or> viewMode s = Terminal"
  shows "locatorCalls (performPaneDetection now True loc (calibration_reset True s)) = 1"
  using assms
  by (auto simp add: performPaneDetection_def Let_def fastExit_def shouldRunDetection_def
      calibration_reset_def setMode_def calibrationPrologue_def updateActivity_def
      split: sum.split option.split)

text \<open>
  C5. A client in fixed detection mode that is locked (calibration over, a stable zone
  committed for its view mode) goes through any number of detection steps, at any clock
  readings and whatever the locators would return, without a single locator call: the
  call count of the run is 0, the client stays locked and its stable zone is unchanged.
  The explicit reset ends this: the step after \<open>calibration:reset\<close> calls the locator.
\<close>

theorem locked_ticks_never_call_locator:
  assumes "locked s"
  shows "snd (runDetections True ticks s) = 0 \<and>
         locked (fst (runDetections True ticks s)) \<and>
         stablePaneX (fst (runDetections True ticks s)) = stablePaneX s \<and>
         stablePaneY (fst (runDetections True ticks s)) = stablePaneY s \<and>
         locatorCalls (performPaneDetection now True loc
            (calibration_reset True (fst (runDetections True ticks s)))) = 1"
proof -
  have vm: "viewMode s = Chat \<or> viewMode s = Terminal"
    using assms by (auto simp add: locked_def)
  show ?thesis
    using assms vm by (simp add: locked_run locked_frameCount reset_runs_locator)
qed

theorem locked_ticks_witness:
  "locked ((createDefaultClientState ''phone'')
      \<lparr>calibrationMode := False, stablePaneX := 620, fixedChatZone := Some 620\<rparr>) \<and>
   snd (runDetections True
      [(1000, chatFound 1000 800 300), (2000, chatFound 1000 800 500),
       (9000, chatFound 1000 800 620)]
      ((createDefaultClientState ''phone'')
        \<lparr>calibrationMode := False, stablePaneX := 620, fixedChatZone := Some 620\<rparr>)) = 0"
proof -
  have h: "locked ((createDefaultClientState ''phone'')
      \<lparr>calibrationMode := False, stablePaneX := 620, fixedChatZone := Some 620\<rparr>)"
    by (simp add: locked_def createDefaultClientState_def)
  show ?thesis
    using h locked_ticks_never_call_locator [OF h, where ticks =
        "[(1000, chatFound 1000 800 300), (2000, chatFound 1000 800 500),
          (9000, chatFound 1000 800 620)]"]
    by simp
qed

section \<open>Properties: the capture timer\<close>

lemma Math_max_eq_Max: "Math_max a xs = Max (insert a (set xs))"
proof -
  have "fold max xs a = Max (insert a (set xs))"
    by (metis Max.set_eq_fold list.simps(15))
  then show ?thesis by (simp add: Math_max_def)
qed

text \<open>
  C6 as stated fails on the code. With the default global rate 30 and one connected
  client that is inactive, in idle mode, with an fps override of 60, the timer period is
  1000 / 60; the maximum over the active clients in a streaming mode (there are none)
  together with the global default gives 1000 / 30.
\<close>

theorem interval_counts_idle_client_counterexample:
  "intervalMs lowResourceOff defaultGlobal
     [((createDefaultClientState ''phone'')\<lparr>viewMode := Idle, isActive := False\<rparr>,
       clientDefaults\<lparr>fps_override := Some 60\<rparr>)] = 50 / 3
   \<and> 1000 / targetFps_activeStreamingOnly defaultGlobal
     [((createDefaultClientState ''phone'')\<lparr>viewMode := Idle, isActive := False\<rparr>,
       clientDefaults\<lparr>fps_override := Some 60\<rparr>)] = 100 / 3
   \<and> intervalMs lowResourceOff defaultGlobal
     [((createDefaultClientState ''phone'')\<lparr>viewMode := Idle, isActive := False\<rparr>,
       clientDefaults\<lparr>fps_override := Some 60\<rparr>)]
     \<noteq> 1000 / targetFps_activeStreamingOnly defaultGlobal
     [((createDefaultClientState ''phone'')\<lparr>viewMode := Idle, isActive := False\<rparr>,
       clientDefaults\<lparr>fps_override := Some 60\<rparr>)]"
  by (simp add: intervalMs_def targetFps_def targetFps_activeStreamingOnly_def Math_max_def
      lowResourceOff_def defaultGlobal_def getEffectiveConfig_def clientDefaults_def
      createDefaultClientState_def streamingMode_def)

text \<open>
  C6, amended. The timer period is \<open>1000 / targetFps\<close> milliseconds. Outside low-resource
  mode \<open>targetFps\<close> is the maximum of the global default rate and the effective rates of
  all connected clients, whether active or not and whatever their view mode. In
  low-resource mode it is the single low-resource rate, and no client override counts.
  The timer runs only while the engine is streaming.
\<close>

theorem interval_is_max_over_all_clients:
  "(isStreaming eng \<longrightarrow>
      streamInterval (updateInterval lr g clients eng) = Some (1000 / targetFps lr g clients)) \<and>
   (isLowResourceMode lr \<longrightarrow> targetFps lr g clients = getEffectiveFps lr) \<and>
   (\<not> isLowResourceMode lr \<longrightarrow>
      targetFps lr g clients =
        Max (insert (fps g)
          ((\<lambda>c. eff_fps (getEffectiveConfig g (snd c) (viewMode (fst c)))) ` set clients)))"
  by (simp add: updateInterval_def intervalMs_def targetFps_def Math_max_eq_Max)

theorem interval_is_max_witness:
  "streamInterval (updateInterval lowResourceOff defaultGlobal
      [((createDefaultClientState ''phone'')\<lparr>viewMode := Idle, isActive := False\<rparr>,
        clientDefaults\<lparr>fps_override := Some 60\<rparr>)]
      \<lparr>isStreaming = True, streamInterval = None, isCapturing = False,
       globalDetectedWindow = None\<rparr>) = Some (50 / 3)
   \<and> targetFps (lowResourceOff\<lparr>isLowResourceMode := True\<rparr>) defaultGlobal
      [((createDefaultClientState ''phone'')\<lparr>viewMode := Idle, isActive := False\<rparr>,
        clientDefaults\<lparr>fps_override := Some 60\<rparr>)] = 10"
proof -
  have off: "\<not> isLowResourceMode lowResourceOff"
    and on: "isLowResourceMode (lowResourceOff\<lparr>isLowResourceMode := True\<rparr>)"
    and st: "isStreaming \<lparr>isStreaming = True, streamInterval = None, isCapturing = False,
       globalDetectedWindow = None\<rparr>"
    by (simp_all add: lowResourceOff_def)
  show ?thesis
    using off on st
      interval_is_max_over_all_clients [of
        "\<lparr>isStreaming = True, streamInterval = None, isCapturing = False,
          globalDetectedWindow = None\<rparr>" lowResourceOff defaultGlobal
        "[((createDefaultClientState ''phone'')\<lparr>viewMode := Idle, isActive := False\<rparr>,
           clientDefaults\<lparr>fps_override := Some 60\<rparr>)]"]
      interval_is_max_over_all_clients [of
        "\<lparr>isStreaming = True, streamInterval = None, isCapturing = False,
          globalDetectedWindow = None\<rparr>" "lowResourceOff\<lparr>isLowResourceMode := True\<rparr>"
        defaultGlobal
        "[((createDefaultClientState ''phone'')\<lparr>viewMode := Idle, isActive := False\<rparr>,
           clientDefaults\<lparr>fps_override := Some 60\<rparr>)]"]
    by (simp add: lowResourceOff_def defaultGlobal_def getEffectiveConfig_def clientDefaults_def
        createDefaultClientState_def)
qed

section \<open>Properties: the click handler\<close>

text \<open>
  Two values of the rounding: \<open>0.1\<close> is the double \<open>3602879701896397 / 2 ^ 55\<close>, and
  \<open>0.1 + 0.2\<close> is \<open>0.30000000000000004\<close>, the double \<open>1351079888211149 / 2 ^ 52\<close>.
\<close>

lemma toDouble_one_tenth: "toDouble (1 / 10) = 3602879701896397 / 36028797018963968"
  by code_simp

lemma js_add_tenths:
  "js_add (toDouble (1 / 10)) (toDouble (2 / 10)) = 1351079888211149 / 4503599627370496"
  by code_simp

text \<open>Integers below \<open>2 ^ 53\<close> in magnitude are doubles: rounding leaves them as they are.\<close>

lemma roundHalfEven_of_int: "roundHalfEven (of_int m) = m"
  by (simp add: roundHalfEven_def)

lemma exponentOf_of_int:
  assumes "n \<noteq> 0"
  shows "exponentOf (of_int n) = bitlen \<bar>n\<bar> - 1"
proof -
  have "1 \<le> \<bar>(of_int n :: rat)\<bar>"
  proof -
    have "1 \<le> \<bar>n\<bar>" using assms by simp
    then have "(of_int 1 :: rat) \<le> of_int \<bar>n\<bar>" by (simp only: of_int_le_iff)
    then show ?thesis by simp
  qed
  moreover have "\<lfloor>\<bar>(of_int n :: rat)\<bar>\<rfloor> = \<bar>n\<bar>"
    by (metis floor_of_int of_int_abs)
  ultimately show ?thesis by (simp add: exponentOf_def)
qed

lemma bitlen_le_53:
  assumes "0 < m" and "m < 2 ^ 53"
  shows "1 \<le> bitlen m \<and> bitlen m \<le> 53"
proof -
  have b: "2 ^ nat (bitlen m - 1) \<le> m"
    using bitlen_bounds [OF assms(1)] by simp
  have one: "1 \<le> bitlen m"
    using assms(1) bitlen_eq_zero_iff [of m] bitlen_nonneg [of m] by linarith
  have "bitlen m \<le> 53"
  proof (rule ccontr)
    assume "\<not> bitlen m \<le> 53"
    then have "53 \<le> nat (bitlen m - 1)" by simp
    then have "(2::int) ^ 53 \<le> 2 ^ nat (bitlen m - 1)"
      by (rule power_increasing) simp
    then show False using b assms(2) by linarith
  qed
  then show ?thesis using one by simp
qed

lemma toDouble_of_int:
  assumes "\<bar>n\<bar> < 2 ^ 53"
  shows "toDouble (of_int n) = of_int n"
proof (cases "n = 0")
  case True
  then show ?thesis by (simp add: toDouble_def)
next
  case False
  define e where "e = bitlen \<bar>n\<bar> - 1"
  have eb: "0 \<le> e" "e \<le> 52"
    using bitlen_le_53 [of "\<bar>n\<bar>"] assms False by (simp_all add: e_def)
  define k where "k = nat (52 - e)"
  have p: "max (exponentOf (of_int n)) (- 1022) - 52 = - int k"
    using eb by (simp add: exponentOf_of_int [OF False] e_def [symmetric] k_def)
  have ulp: "(2::rat) powi (- int k) = 1 / 2 ^ k"
    by (simp add: power_int_minus field_simps)
  have q: "(of_int n :: rat) / (1 / 2 ^ k) = of_int (n * 2 ^ k)"
    by simp
  have "toDouble (of_int n) = of_int (roundHalfEven ((of_int n :: rat) / (1 / 2 ^ k))) * (1 / 2 ^ k)"
    using False by (simp add: toDouble_def Let_def p ulp)
  also have "\<dots> = of_int (n * 2 ^ k) * (1 / 2 ^ k)"
    by (simp only: q roundHalfEven_of_int)
  also have "\<dots> = of_int n"
    by simp
  finally show ?thesis .
qed

lemma js_div_by_one:
  assumes "\<bar>n\<bar> < 2 ^ 53"
  shows "js_div (of_int n) 1 = of_int n"
  using toDouble_of_int [OF assms] by (simp add: js_div_def)

lemma js_add_of_int:
  assumes "\<bar>a + b\<bar> < 2 ^ 53"
  shows "js_add (of_int a) (of_int b) = of_int (a + b)"
  using toDouble_of_int [OF assms] by (simp add: js_add_def)

lemma js_div_self:
  assumes "0 < w"
  shows "js_div (of_int w) (of_int w) = 1"
  using assms toDouble_of_int [of 1] by (simp add: js_div_def)

text \<open>The calls of the handler for a numeric click of a client with a last capture area.\<close>

lemma input_click_calls:
  assumes "lastCaptureArea st = Some area"
  shows "snd (input_click lr g cc (lw, lh) (Inr (w, h)) now (Some (cx, cy)) (Some st)) =
           [moveMouse
              (Math_round (js_div
                 (js_add (js_add (of_int (region_x area))
                            (js_div cx (if isLowResourceMode lr then getImageDownscale lr else 1)))
                    (of_int (cropLeft (getEffectiveConfig g cc (viewMode st)))))
                 (js_div (of_int w) (of_int lw))))
              (Math_round (js_div
                 (js_add (js_add (of_int (region_y area))
                            (js_div cy (if isLowResourceMode lr then getImageDownscale lr else 1)))
                    (of_int (cropTop (getEffectiveConfig g cc (viewMode st)))))
                 (js_div (of_int h) (of_int lh)))),
            mouseClick]"
  using assms
  by (simp add: input_click_def Let_def updateActivity_def index_getDpiScale_def)

text \<open>One coordinate at DPI scale 1, outside low-resource mode, on integers.\<close>

lemma coordinate_at_scale_one:
  assumes "0 < w" and "\<bar>x\<bar> < 2 ^ 51" and "\<bar>c\<bar> < 2 ^ 51" and "\<bar>m\<bar> < 2 ^ 51"
  shows "Math_round (js_div (js_add (js_add (of_int x) (js_div (of_int c) 1)) (of_int m))
           (js_div (of_int w) (of_int w))) = x + c + m"
proof -
  have c: "\<bar>c\<bar> < 2 ^ 53" using assms(3) by simp
  have xc: "\<bar>x + c\<bar> < 2 ^ 53" using assms(2,3) by simp
  have xcm: "\<bar>x + c + m\<bar> < 2 ^ 53" using assms(2,3,4) by simp
  show ?thesis
    by (simp only: js_div_by_one [OF c] js_add_of_int [OF xc] js_add_of_int [OF xcm]
        js_div_self [OF assms(1)] js_div_by_one [OF xcm] Math_round_of_int)
qed

lemma input_click_at_scale_one:
  assumes "lastCaptureArea st = Some area" and "\<not> isLowResourceMode lr"
    and "0 < w" and "0 < h"
    and "\<bar>region_x area\<bar> < 2 ^ 51" and "\<bar>region_y area\<bar> < 2 ^ 51"
    and "\<bar>icx\<bar> < 2 ^ 51" and "\<bar>icy\<bar> < 2 ^ 51"
    and "\<bar>cropLeft (getEffectiveConfig g cc (viewMode st))\<bar> < 2 ^ 51"
    and "\<bar>cropTop (getEffectiveConfig g cc (viewMode st))\<bar> < 2 ^ 51"
  shows "snd (input_click lr g cc (w, h) (Inr (w, h)) now (Some (of_int icx, of_int icy)) (Some st)) =
           [moveMouse
              (region_x area + icx + cropLeft (getEffectiveConfig g cc (viewMode st)))
              (region_y area + icy + cropTop (getEffectiveConfig g cc (viewMode st))),
            mouseClick]"
  using assms(2)
  by (simp add: input_click_calls [OF assms(1)]
      coordinate_at_scale_one [OF assms(3) assms(5) assms(7) assms(9)]
      coordinate_at_scale_one [OF assms(4) assms(6) assms(8) assms(10)])

text \<open>
  C3 as stated fails on the code. A chat client (manual crop: top 40) whose last capture
  area starts at (100, 200) clicks at (10, 20) on a 1920 x 1080 screen at DPI scale 1:
  the mouse moves to (110, 260), while \<open>((x + cx) / sx, (y + cy) / sy)\<close> is (110, 220).
\<close>

theorem click_adds_manual_crop_counterexample:
  "snd (input_click lowResourceOff defaultGlobal clientDefaults (1920, 1080) (Inr (1920, 1080)) 0
     (Some (10, 20))
     (Some ((createDefaultClientState ''phone'')
        \<lparr>lastCaptureArea :=
           Some \<lparr>region_x = 100, region_y = 200, region_w = 800, region_h = 600\<rparr>\<rparr>)))
   = [moveMouse 110 260, mouseClick] \<and>
   logical_as_specified \<lparr>region_x = 100, region_y = 200, region_w = 800, region_h = 600\<rparr>
      (getDpiScale 1920 1080 1920 1080) (10, 20) = (110, 220)"
proof -
  have "snd (input_click lowResourceOff defaultGlobal clientDefaults (1920, 1080) (Inr (1920, 1080)) 0
     (Some (of_int 10, of_int 20))
     (Some ((createDefaultClientState ''phone'')
        \<lparr>lastCaptureArea :=
           Some \<lparr>region_x = 100, region_y = 200, region_w = 800, region_h = 600\<rparr>\<rparr>)))
   = [moveMouse 110 260, mouseClick]"
    by (subst input_click_at_scale_one
        [where area = "\<lparr>region_x = 100, region_y = 200, region_w = 800, region_h = 600\<rparr>"])
      (simp_all add: lowResourceOff_def defaultGlobal_def clientDefaults_def
        createDefaultClientState_def getEffectiveConfig_def)
  moreover have "logical_as_specified
      \<lparr>region_x = 100, region_y = 200, region_w = 800, region_h = 600\<rparr>
      (getDpiScale 1920 1080 1920 1080) (10, 20) = (110, 220)"
    by (simp add: getDpiScale_def logical_as_specified_def)
  ultimately show ?thesis by simp
qed

text \<open>
  C3, amended. For a click with numeric coordinates \<open>(cx, cy)\<close> of a client with a last
  capture area at \<open>(x, y)\<close>, when the screenshot succeeds, the handler moves the mouse to
  the logical point \<open>(round((x + cx / d + cropLeft) / sx), round((y + cy / d + cropTop) / sy))\<close>
  and clicks. Here \<open>cropLeft\<close> and \<open>cropTop\<close> are the manual crop margins of the client's
  view mode, \<open>d\<close> is the image downscale factor in low-resource mode and 1 otherwise,
  \<open>sx\<close> and \<open>sy\<close> are the quotients of the snapshot size by the logical screen size,
  \<open>round\<close> is \<open>Math.round\<close>, and every sum and quotient, \<open>sx\<close> and \<open>sy\<close> included, is
  rounded to a double at once. At DPI scale 1 (the snapshot has the logical size),
  outside low-resource mode, for integer click coordinates, all numbers below \<open>2 ^ 51\<close>
  in magnitude, no rounding occurs and the point is \<open>(x + cx + cropLeft, y + cy + cropTop)\<close>.
\<close>

theorem click_translation:
  assumes "lastCaptureArea st = Some area"
  shows "snd (input_click lr g cc (lw, lh) (Inr (w, h)) now (Some (cx, cy)) (Some st)) =
           [moveMouse
              (Math_round (js_div
                 (js_add (js_add (of_int (region_x area))
                            (js_div cx (if isLowResourceMode lr then getImageDownscale lr else 1)))
                    (of_int (cropLeft (getEffectiveConfig g cc (viewMode st)))))
                 (js_div (of_int w) (of_int lw))))
              (Math_round (js_div
                 (js_add (js_add (of_int (region_y area))
                            (js_div cy (if isLowResourceMode lr then getImageDownscale lr else 1)))
                    (of_int (cropTop (getEffectiveConfig g cc (viewMode st)))))
                 (js_div (of_int h) (of_int lh)))),
            mouseClick] \<and>
         (\<not> isLowResourceMode lr \<and> w = lw \<and> h = lh \<and> 0 < w \<and> 0 < h \<and>
          \<bar>region_x area\<bar> < 2 ^ 51 \<and> \<bar>region_y area\<bar> < 2 ^ 51 \<and>
          \<bar>icx\<bar> < 2 ^ 51 \<and> \<bar>icy\<bar> < 2 ^ 51 \<and>
          \<bar>cropLeft (getEffectiveConfig g cc (viewMode st))\<bar> < 2 ^ 51 \<and>
          \<bar>cropTop (getEffectiveConfig g cc (viewMode st))\<bar> < 2 ^ 51 \<longrightarrow>
            snd (input_click lr g cc (lw, lh) (Inr (w, h)) now
                   (Some (of_int icx, of_int icy)) (Some st)) =
              [moveMouse
                 (region_x area + icx + cropLeft (getEffectiveConfig g cc (viewMode st)))
                 (region_y area + icy + cropTop (getEffectiveConfig g cc (viewMode st))),
               mouseClick])"
proof (intro conjI impI)
  show "snd (input_click lr g cc (lw, lh) (Inr (w, h)) now (Some (cx, cy)) (Some st)) =
           [moveMouse
              (Math_round (js_div
                 (js_add (js_add (of_int (region_x area))
                            (js_div cx (if isLowResourceMode lr then getImageDownscale lr else 1)))
                    (of_int (cropLeft (getEffectiveConfig g cc (viewMode st)))))
                 (js_div (of_int w) (of_int lw))))
              (Math_round (js_div
                 (js_add (js_add (of_int (region_y area))
                            (js_div cy (if isLowResourceMode lr then getImageDownscale lr else 1)))
                    (of_int (cropTop (getEffectiveConfig g cc (viewMode st)))))
                 (js_div (of_int h) (of_int lh)))),
            mouseClick]"
    by (rule input_click_calls [OF assms])
next
  assume a: "\<not> isLowResourceMode lr \<and> w = lw \<and> h = lh \<and> 0 < w \<and> 0 < h \<and>
          \<bar>region_x area\<bar> < 2 ^ 51 \<and> \<bar>region_y area\<bar> < 2 ^ 51 \<and>
          \<bar>icx\<bar> < 2 ^ 51 \<and> \<bar>icy\<bar> < 2 ^ 51 \<and>
          \<bar>cropLeft (getEffectiveConfig g cc (viewMode st))\<bar> < 2 ^ 51 \<and>
          \<bar>cropTop (getEffectiveConfig g cc (viewMode st))\<bar> < 2 ^ 51"
  then have eq: "lw = w" "lh = h" by simp_all
  show "snd (input_click lr g cc (lw, lh) (Inr (w, h)) now
                   (Some (of_int icx, of_int icy)) (Some st)) =
              [moveMouse
                 (region_x area + icx + cropLeft (getEffectiveConfig g cc (viewMode st)))
                 (region_y area + icy + cropTop (getEffectiveConfig g cc (viewMode st))),
               mouseClick]"
    unfolding eq using a by (intro input_click_at_scale_one [OF assms]) simp_all
qed

text \<open>
  Two runs. A terminal client (manual crop: top 10) at DPI scale 1 with the area at
  (100, 200) clicks at (30, 40): the mouse moves to (130, 250). A client without manual
  crop, its area at (300, 200), clicks at (20, 20) on a 1280 x 720 snapshot of a
  logical 854 x 480 screen: \<open>1280 / 854\<close> rounds to a double a little above the
  quotient, \<open>320\<close> divided by it is \<open>213.49999999999997\<close>, and the mouse moves to
  (213, 147).
\<close>

theorem click_translation_witness:
  "snd (input_click lowResourceOff defaultGlobal clientDefaults (1920, 1080) (Inr (1920, 1080)) 0
     (Some (30, 40))
     (Some ((createDefaultClientState ''phone'')
        \<lparr>viewMode := Terminal,
         lastCaptureArea :=
           Some \<lparr>region_x = 100, region_y = 200, region_w = 800, region_h = 600\<rparr>\<rparr>)))
   = [moveMouse 130 250, mouseClick] \<and>
   snd (input_click lowResourceOff
     (defaultGlobal\<lparr>chatCrop := \<lparr>crop_top = 0, crop_bottom = 0, crop_left = 0, crop_right = 0\<rparr>\<rparr>)
     clientDefaults (854, 480) (Inr (1280, 720)) 0 (Some (20, 20))
     (Some ((createDefaultClientState ''phone'')
        \<lparr>lastCaptureArea :=
           Some \<lparr>region_x = 300, region_y = 200, region_w = 800, region_h = 600\<rparr>\<rparr>)))
   = [moveMouse 213 147, mouseClick]"
proof -
  have h1: "lastCaptureArea ((createDefaultClientState ''phone'')
        \<lparr>viewMode := Terminal,
         lastCaptureArea :=
           Some \<lparr>region_x = 100, region_y = 200, region_w = 800, region_h = 600\<rparr>\<rparr>)
      = Some \<lparr>region_x = 100, region_y = 200, region_w = 800, region_h = 600\<rparr>"
    by simp
  have h2: "lastCaptureArea ((createDefaultClientState ''phone'')
        \<lparr>lastCaptureArea :=
           Some \<lparr>region_x = 300, region_y = 200, region_w = 800, region_h = 600\<rparr>\<rparr>)
      = Some \<lparr>region_x = 300, region_y = 200, region_w = 800, region_h = 600\<rparr>"
    by simp
  have rx: "Math_round (js_div (js_add (js_add 300 (js_div 20 1)) 0) (js_div 1280 854)) = 213"
    by code_simp
  have ry: "Math_round (js_div (js_add (js_add 200 (js_div 20 1)) 0) (js_div 720 480)) = 147"
    by code_simp
  have first: "snd (input_click lowResourceOff defaultGlobal clientDefaults (1920, 1080)
     (Inr (1920, 1080)) 0 (Some (30, 40))
     (Some ((createDefaultClientState ''phone'')
        \<lparr>viewMode := Terminal,
         lastCaptureArea :=
           Some \<lparr>region_x = 100, region_y = 200, region_w = 800, region_h = 600\<rparr>\<rparr>)))
   = [moveMouse 130 250, mouseClick]"
    using click_translation [OF h1, where lr = lowResourceOff and w = 1920 and lw = 1920
        and h = 1080 and lh = 1080 and icx = 30 and icy = 40 and g = defaultGlobal
        and cc = clientDefaults and now = 0 and cx = 0 and cy = 0]
    by (simp add: lowResourceOff_def defaultGlobal_def clientDefaults_def
        createDefaultClientState_def getEffectiveConfig_def)
  have second: "snd (input_click lowResourceOff
     (defaultGlobal\<lparr>chatCrop := \<lparr>crop_top = 0, crop_bottom = 0, crop_left = 0, crop_right = 0\<rparr>\<rparr>)
     clientDefaults (854, 480) (Inr (1280, 720)) 0 (Some (20, 20))
     (Some ((createDefaultClientState ''phone'')
        \<lparr>lastCaptureArea :=
           Some \<lparr>region_x = 300, region_y = 200, region_w = 800, region_h = 600\<rparr>\<rparr>)))
   = [moveMouse 213 147, mouseClick]"
    using click_translation [OF h2, where lr = lowResourceOff and w = 1280 and lw = 854
        and h = 720 and lh = 480 and icx = 0 and icy = 0
        and g = "defaultGlobal\<lparr>chatCrop := \<lparr>crop_top = 0, crop_bottom = 0, crop_left = 0, crop_right = 0\<rparr>\<rparr>"
        and cc = clientDefaults and now = 0 and cx = 20 and cy = 20]
    by (simp add: lowResourceOff_def defaultGlobal_def clientDefaults_def
        createDefaultClientState_def getEffectiveConfig_def rx ry)
  show ?thesis using first second by simp
qed

section \<open>Properties: the edge detector\<close>

lemma findVerticalEdges_range:
  "findVerticalEdges img opts =
     (if fst (verticalScanRange img opts) > snd (verticalScanRange img opts) \<and>
         marginY opts < of_int (img_height img) - marginY opts \<and> sampleStep opts \<le> 0
      then None
      else Some (sortDescending (removeDuplicates
             (scanColumns img opts (snd (verticalScanRange img opts))
                (fst (verticalScanRange img opts)) []))))"
proof (cases "scanRegion opts")
  case None
  then show ?thesis
    by (simp add: findVerticalEdges_def verticalScanRange_def Let_def)
next
  case (Some r)
  then show ?thesis
    by (cases r) (simp add: findVerticalEdges_def verticalScanRange_def Let_def)
qed

lemma findHorizontalEdges_range:
  "findHorizontalEdges img opts =
     (if fst (horizontalScanRange img opts) > snd (horizontalScanRange img opts) \<and>
         marginX opts < of_int (img_width img) - marginX opts \<and> sampleStep opts \<le> 0
      then None
      else Some (sortDescending (removeDuplicates
             (scanRows img opts (snd (horizontalScanRange img opts))
                (fst (horizontalScanRange img opts)) []))))"
proof (cases "scanRegion opts")
  case None
  then show ?thesis
    by (simp add: findHorizontalEdges_def horizontalScanRange_def Let_def)
next
  case (Some r)
  then show ?thesis
    by (cases r) (simp add: findHorizontalEdges_def horizontalScanRange_def Let_def)
qed

text \<open>A column none of whose samples shows contrast counts no hit.\<close>

lemma sampleColumn_no_contrast:
  assumes "\<forall>k :: nat. y + of_nat k * step < bound \<longrightarrow>
      of_int (colorDiff
        (intToRGBA (getPixelColor img (max 0 (x - 3)) (y + of_nat k * step)))
        (intToRGBA (getPixelColor img (min (of_int (img_width img) - 1) (x + 3))
           (y + of_nat k * step)))) \<le> thr"
  shows "fst (sampleColumn img thr step bound x y (c, t)) = c"
  using assms
proof (induction img thr step bound x y "(c, t)" arbitrary: c t rule: sampleColumn.induct)
  case (1 img thr step bound x y edgeCount totalSamples)
  show ?case
  proof (cases "y < bound \<and> 0 < step")
    case True
    have "\<not> thr < of_int (colorDiff (intToRGBA (getPixelColor img (max 0 (x - 3)) y))
             (intToRGBA (getPixelColor img (min (of_int (img_width img) - 1) (x + 3)) y)))"
      using "1.prems" [rule_format, of 0] True by (simp add: not_less)
    note le = this
    have next_samples: "\<forall>k :: nat. y + step + of_nat k * step < bound \<longrightarrow>
      of_int (colorDiff
        (intToRGBA (getPixelColor img (max 0 (x - 3)) (y + step + of_nat k * step)))
        (intToRGBA (getPixelColor img (min (of_int (img_width img) - 1) (x + 3))
           (y + step + of_nat k * step)))) \<le> thr"
    proof (intro allI impI)
      fix k :: nat
      assume b: "y + step + of_nat k * step < bound"
      have eq: "y + of_nat (Suc k) * step = y + step + of_nat k * step"
        by (simp add: algebra_simps)
      show "of_int (colorDiff
        (intToRGBA (getPixelColor img (max 0 (x - 3)) (y + step + of_nat k * step)))
        (intToRGBA (getPixelColor img (min (of_int (img_width img) - 1) (x + 3))
           (y + step + of_nat k * step)))) \<le> thr"
        using "1.prems" [rule_format, of "Suc k"] b unfolding eq by simp
    qed
    have ih: "fst (sampleColumn img thr step bound x (y + step) (edgeCount, totalSamples + 1))
                = edgeCount"
      using "1.hyps" [OF True refl refl refl refl refl next_samples] le by simp
    show ?thesis
      using True le ih by (subst sampleColumn.simps) (simp add: Let_def)
  next
    case False
    then show ?thesis by (subst sampleColumn.simps) auto
  qed
qed

lemma sampleRow_no_contrast:
  assumes "\<forall>k :: nat. x + of_nat k * step < bound \<longrightarrow>
      of_int (colorDiff
        (intToRGBA (getPixelColor img (x + of_nat k * step) (max 0 (y - 3))))
        (intToRGBA (getPixelColor img (x + of_nat k * step)
           (min (of_int (img_height img) - 1) (y + 3))))) \<le> thr"
  shows "fst (sampleRow img thr step bound y x (c, t)) = c"
  using assms
proof (induction img thr step bound y x "(c, t)" arbitrary: c t rule: sampleRow.induct)
  case (1 img thr step bound y x edgeCount totalSamples)
  show ?case
  proof (cases "x < bound \<and> 0 < step")
    case True
    have "\<not> thr < of_int (colorDiff (intToRGBA (getPixelColor img x (max 0 (y - 3))))
             (intToRGBA (getPixelColor img x (min (of_int (img_height img) - 1) (y + 3)))))"
      using "1.prems" [rule_format, of 0] True by (simp add: not_less)
    note le = this
    have next_samples: "\<forall>k :: nat. x + step + of_nat k * step < bound \<longrightarrow>
      of_int (colorDiff
        (intToRGBA (getPixelColor img (x + step + of_nat k * step) (max 0 (y - 3))))
        (intToRGBA (getPixelColor img (x + step + of_nat k * step)
           (min (of_int (img_height img) - 1) (y + 3))))) \<le> thr"
    proof (intro allI impI)
      fix k :: nat
      assume b: "x + step + of_nat k * step < bound"
      have eq: "x + of_nat (Suc k) * step = x + step + of_nat k * step"
        by (simp add: algebra_simps)
      show "of_int (colorDiff
        (intToRGBA (getPixelColor img (x + step + of_nat k * step) (max 0 (y - 3))))
        (intToRGBA (getPixelColor img (x + step + of_nat k * step)
           (min (of_int (img_height img) - 1) (y + 3))))) \<le> thr"
        using "1.prems" [rule_format, of "Suc k"] b unfolding eq by simp
    qed
    have ih: "fst (sampleRow img thr step bound y (x + step) (edgeCount, totalSamples + 1))
                = edgeCount"
      using "1.hyps" [OF True refl refl refl refl refl next_samples] le by simp
    show ?thesis
      using True le ih by (subst sampleRow.simps) (simp add: Let_def)
  next
    case False
    then show ?thesis by (subst sampleRow.simps) auto
  qed
qed

lemma scoreOf_no_hits: "fst counts = 0 \<Longrightarrow> scoreOf counts = 0"
  by (simp add: scoreOf_def)

text \<open>Scanning columns that show no contrast at their samples pushes no candidate.\<close>

lemma scanColumns_no_contrast:
  assumes "\<forall>j k :: nat. x - of_nat j > endX \<and>
      marginY opts + of_nat k * sampleStep opts < of_int (img_height img) - marginY opts \<longrightarrow>
      of_int (colorDiff
        (intToRGBA (getPixelColor img (max 0 (x - of_nat j - 3))
           (marginY opts + of_nat k * sampleStep opts)))
        (intToRGBA (getPixelColor img (min (of_int (img_width img) - 1) (x - of_nat j + 3))
           (marginY opts + of_nat k * sampleStep opts)))) \<le> edgeThreshold opts"
    and "0 < minEdgeScore opts"
  shows "scanColumns img opts endX x edges = edges"
  using assms
proof (induction img opts endX x edges rule: scanColumns.induct)
  case (1 img opts endX x edges)
  show ?case
  proof (cases "x > endX")
    case True
    have "fst (sampleColumn img (edgeThreshold opts) (sampleStep opts)
             (of_int (img_height img) - marginY opts) x (marginY opts) (0, 0)) = 0"
      using "1.prems"(1) [rule_format, of 0] True
      by (intro sampleColumn_no_contrast) simp
    then have z: "scoreOf (sampleColumn img (edgeThreshold opts) (sampleStep opts)
             (of_int (img_height img) - marginY opts) x (marginY opts) (0, 0)) = 0"
      by (rule scoreOf_no_hits)
    have next_columns: "\<forall>j k :: nat. x - 1 - of_nat j > endX \<and>
      marginY opts + of_nat k * sampleStep opts < of_int (img_height img) - marginY opts \<longrightarrow>
      of_int (colorDiff
        (intToRGBA (getPixelColor img (max 0 (x - 1 - of_nat j - 3))
           (marginY opts + of_nat k * sampleStep opts)))
        (intToRGBA (getPixelColor img (min (of_int (img_width img) - 1) (x - 1 - of_nat j + 3))
           (marginY opts + of_nat k * sampleStep opts)))) \<le> edgeThreshold opts"
    proof (intro allI impI)
      fix j k :: nat
      assume b: "x - 1 - of_nat j > endX \<and>
        marginY opts + of_nat k * sampleStep opts < of_int (img_height img) - marginY opts"
      have eq: "x - of_nat (Suc j) = x - 1 - of_nat j"
        by simp
      show "of_int (colorDiff
        (intToRGBA (getPixelColor img (max 0 (x - 1 - of_nat j - 3))
           (marginY opts + of_nat k * sampleStep opts)))
        (intToRGBA (getPixelColor img (min (of_int (img_width img) - 1) (x - 1 - of_nat j + 3))
           (marginY opts + of_nat k * sampleStep opts)))) \<le> edgeThreshold opts"
        using "1.prems"(1) [rule_format, of "Suc j" k] b unfolding eq by simp
    qed
    have "scanColumns img opts endX (x - 1) edges = edges"
      using "1.IH" [OF True refl] z "1.prems"(2) next_columns by simp
    then show ?thesis
      using True z "1.prems"(2) by (subst scanColumns.simps) (simp add: Let_def)
  next
    case False
    then show ?thesis by (subst scanColumns.simps) auto
  qed
qed

lemma scanRows_no_contrast:
  assumes "\<forall>j k :: nat. y - of_nat j > endY \<and>
      marginX opts + of_nat k * sampleStep opts < of_int (img_width img) - marginX opts \<longrightarrow>
      of_int (colorDiff
        (intToRGBA (getPixelColor img (marginX opts + of_nat k * sampleStep opts)
           (max 0 (y - of_nat j - 3))))
        (intToRGBA (getPixelColor img (marginX opts + of_nat k * sampleStep opts)
           (min (of_int (img_height img) - 1) (y - of_nat j + 3))))) \<le> edgeThreshold opts"
    and "0 < minEdgeScore opts"
  shows "scanRows img opts endY y edges = edges"
  using assms
proof (induction img opts endY y edges rule: scanRows.induct)
  case (1 img opts endY y edges)
  show ?case
  proof (cases "y > endY")
    case True
    have "fst (sampleRow img (edgeThreshold opts) (sampleStep opts)
             (of_int (img_width img) - marginX opts) y (marginX opts) (0, 0)) = 0"
      using "1.prems"(1) [rule_format, of 0] True
      by (intro sampleRow_no_contrast) simp
    then have z: "scoreOf (sampleRow img (edgeThreshold opts) (sampleStep opts)
             (of_int (img_width img) - marginX opts) y (marginX opts) (0, 0)) = 0"
      by (rule scoreOf_no_hits)
    have next_rows: "\<forall>j k :: nat. y - 1 - of_nat j > endY \<and>
      marginX opts + of_nat k * sampleStep opts < of_int (img_width img) - marginX opts \<longrightarrow>
      of_int (colorDiff
        (intToRGBA (getPixelColor img (marginX opts + of_nat k * sampleStep opts)
           (max 0 (y - 1 - of_nat j - 3))))
        (intToRGBA (getPixelColor img (marginX opts + of_nat k * sampleStep opts)
           (min (of_int (img_height img) - 1) (y - 1 - of_nat j + 3))))) \<le> edgeThreshold opts"
    proof (intro allI impI)
      fix j k :: nat
      assume b: "y - 1 - of_nat j > endY \<and>
        marginX opts + of_nat k * sampleStep opts < of_int (img_width img) - marginX opts"
      have eq: "y - of_nat (Suc j) = y - 1 - of_nat j"
        by simp
      show "of_int (colorDiff
        (intToRGBA (getPixelColor img (marginX opts + of_nat k * sampleStep opts)
           (max 0 (y - 1 - of_nat j - 3))))
        (intToRGBA (getPixelColor img (marginX opts + of_nat k * sampleStep opts)
           (min (of_int (img_height img) - 1) (y - 1 - of_nat j + 3))))) \<le> edgeThreshold opts"
        using "1.prems"(1) [rule_format, of "Suc j" k] b unfolding eq by simp
    qed
    have "scanRows img opts endY (y - 1) edges = edges"
      using "1.IH" [OF True refl] z "1.prems"(2) next_rows by simp
    then show ?thesis
      using True z "1.prems"(2) by (subst scanRows.simps) (simp add: Let_def)
  next
    case False
    then show ?thesis by (subst scanRows.simps) auto
  qed
qed

text \<open>
  C9 as stated fails on the code once the options are not the usual ones. On a uniformly
  grey 50 x 64 buffer, where no sampled pair differs at all, \<open>findVerticalEdges\<close> with
  \<open>minEdgeScore = 0\<close> returns a candidate (every scanned column has score 0, which reaches
  the minimum; the five columns merge into the one at x = 20), and with \<open>sampleStep = 0\<close>
  the call does not return.
\<close>

theorem no_contrast_zero_minimum_counterexample:
  "noSampledContrastVertical
     \<lparr>img_width = 50, img_height = 64, getPixelColor = (\<lambda>x y. 0x202020FF)\<rparr>
     ((defaultEdgeOptions False)\<lparr>minEdgeScore := 0\<rparr>) \<and>
   findVerticalEdges
     \<lparr>img_width = 50, img_height = 64, getPixelColor = (\<lambda>x y. 0x202020FF)\<rparr>
     ((defaultEdgeOptions False)\<lparr>minEdgeScore := 0\<rparr>)
     = Some [\<lparr>edge_pos = 20, edgeScore = 0, continuity = 0\<rparr>] \<and>
   findVerticalEdges
     \<lparr>img_width = 50, img_height = 64, getPixelColor = (\<lambda>x y. 0x202020FF)\<rparr>
     ((defaultEdgeOptions False)\<lparr>sampleStep := 0\<rparr>) = None"
proof -
  have flat: "noSampledContrastVertical
     \<lparr>img_width = 50, img_height = 64, getPixelColor = (\<lambda>x y. 0x202020FF)\<rparr>
     ((defaultEdgeOptions False)\<lparr>minEdgeScore := 0\<rparr>)"
    by (simp add: noSampledContrastVertical_def colorDiff_def defaultEdgeOptions_def)
  have found: "findVerticalEdges
     \<lparr>img_width = 50, img_height = 64, getPixelColor = (\<lambda>x y. 0x202020FF)\<rparr>
     ((defaultEdgeOptions False)\<lparr>minEdgeScore := 0\<rparr>)
     = Some [\<lparr>edge_pos = 20, edgeScore = 0, continuity = 0\<rparr>]"
    by (simp add: findVerticalEdges_def defaultEdgeOptions_def getLowResourceSampleStep_def
        scanColumns.simps sampleColumn.simps scoreOf_def colorDiff_def removeDuplicates_def
        sortDescending_def Let_def)
  have diverges: "findVerticalEdges
     \<lparr>img_width = 50, img_height = 64, getPixelColor = (\<lambda>x y. 0x202020FF)\<rparr>
     ((defaultEdgeOptions False)\<lparr>sampleStep := 0\<rparr>) = None"
    by (simp add: findVerticalEdges_def defaultEdgeOptions_def)
  show ?thesis using flat found diverges by simp
qed

text \<open>
  C9, amended. For every pixel buffer and all options with a positive minimum score and
  a positive sample step (the default options and the options of every call in the code
  are of this kind): if no pair of pixels sampled by \<open>findVerticalEdges\<close> differs by more
  than the contrast threshold, it returns the empty list, and likewise
  \<open>findHorizontalEdges\<close> for the pairs it samples. Pixels outside the sampled pairs may
  differ by any amount.
\<close>

theorem no_sampled_contrast_no_edges:
  assumes "0 < minEdgeScore opts" and "0 < sampleStep opts"
  shows "(noSampledContrastVertical img opts \<longrightarrow> findVerticalEdges img opts = Some []) \<and>
         (noSampledContrastHorizontal img opts \<longrightarrow> findHorizontalEdges img opts = Some [])"
proof (intro conjI impI)
  assume v: "noSampledContrastVertical img opts"
  have "scanColumns img opts (snd (verticalScanRange img opts))
          (fst (verticalScanRange img opts)) [] = []"
    using v assms(1) unfolding noSampledContrastVertical_def
    by (intro scanColumns_no_contrast) simp_all
  then show "findVerticalEdges img opts = Some []"
    using assms(2)
    by (simp add: findVerticalEdges_range removeDuplicates_def sortDescending_def)
next
  assume h: "noSampledContrastHorizontal img opts"
  have "scanRows img opts (snd (horizontalScanRange img opts))
          (fst (horizontalScanRange img opts)) [] = []"
    using h assms(1) unfolding noSampledContrastHorizontal_def
    by (intro scanRows_no_contrast) simp_all
  then show "findHorizontalEdges img opts = Some []"
    using assms(2)
    by (simp add: findHorizontalEdges_range removeDuplicates_def sortDescending_def)
qed

theorem no_sampled_contrast_no_edges_witness:
  "findVerticalEdges
     \<lparr>img_width = 1000, img_height = 800,
      getPixelColor = (\<lambda>x y. if x < 10 then 0xF0F0F0FF else 0x202020FF)\<rparr>
     (defaultEdgeOptions False) = Some [] \<and>
   findHorizontalEdges
     \<lparr>img_width = 1000, img_height = 800,
      getPixelColor = (\<lambda>x y. if x < 10 then 0xF0F0F0FF else 0x202020FF)\<rparr>
     (defaultEdgeOptions False) = Some []"
proof -
  have pos: "0 < minEdgeScore (defaultEdgeOptions False)"
    "0 < sampleStep (defaultEdgeOptions False)"
    by (simp_all add: defaultEdgeOptions_def getLowResourceSampleStep_def)
  have v: "noSampledContrastVertical
     \<lparr>img_width = 1000, img_height = 800,
      getPixelColor = (\<lambda>x y. if x < 10 then 0xF0F0F0FF else 0x202020FF)\<rparr>
     (defaultEdgeOptions False)"
    by (auto simp add: noSampledContrastVertical_def verticalScanRange_def colorDiff_def
        defaultEdgeOptions_def getLowResourceSampleStep_def)
  have h: "noSampledContrastHorizontal
     \<lparr>img_width = 1000, img_height = 800,
      getPixelColor = (\<lambda>x y. if x < 10 then 0xF0F0F0FF else 0x202020FF)\<rparr>
     (defaultEdgeOptions False)"
    by (auto simp add: noSampledContrastHorizontal_def horizontalScanRange_def colorDiff_def
        defaultEdgeOptions_def getLowResourceSampleStep_def)
  show ?thesis
    using no_sampled_contrast_no_edges [OF pos] v h by simp
qed

section \<open>Properties: the terminal pane locator\<close>

text \<open>
  C4 as stated fails on the code in its example. In a 900px high snapshot the candidate
  at y = 850 is 50px above the image bottom, not within 25px, so the correction does not
  apply: with candidates at 850, 820 and 700 the top separator is 700 and the bottom
  separator is 850, not 820.
\<close>

theorem bottom_separator_scenario_counterexample:
  "terminalSlice 900
     [\<lparr>edge_pos = 850, edgeScore = 95 / 100, continuity = 95 / 100\<rparr>,
      \<lparr>edge_pos = 820, edgeScore = 8 / 10, continuity = 8 / 10\<rparr>,
      \<lparr>edge_pos = 700, edgeScore = 9 / 10, continuity = 9 / 10\<rparr>]
   = Some \<lparr>slice_top = 700, slice_bottom = 850\<rparr>
   \<and> selectBottomSeparator 900 700
     [\<lparr>edge_pos = 850, edgeScore = 95 / 100, continuity = 95 / 100\<rparr>,
      \<lparr>edge_pos = 820, edgeScore = 8 / 10, continuity = 8 / 10\<rparr>,
      \<lparr>edge_pos = 700, edgeScore = 9 / 10, continuity = 9 / 10\<rparr>] = 850
   \<and> selectBottomSeparator 900 700
     [\<lparr>edge_pos = 850, edgeScore = 95 / 100, continuity = 95 / 100\<rparr>,
      \<lparr>edge_pos = 820, edgeScore = 8 / 10, continuity = 8 / 10\<rparr>,
      \<lparr>edge_pos = 700, edgeScore = 9 / 10, continuity = 9 / 10\<rparr>] \<noteq> 820"
  by (simp add: terminalSlice_def topCandidates_def selectBottomSeparator_def
      bottomCandidates_def sortDescending_def Let_def)

lemma set_bottomCandidates:
  "set (bottomCandidates height topY hEdges) =
     {e \<in> set hEdges. topY + 100 < edge_pos e \<and> edge_pos e < height - 5}"
  by (auto simp add: bottomCandidates_def sortDescending_def)

lemma sorted_bottomCandidates:
  "sorted (map (\<lambda>e. - edge_pos e) (bottomCandidates height topY hEdges))"
  by (simp add: bottomCandidates_def sortDescending_def)

lemma first_bottomCandidate_lowest:
  assumes "bottomCandidates height topY hEdges = b0 # rest"
  shows "\<forall>e \<in> set (bottomCandidates height topY hEdges). edge_pos e \<le> edge_pos b0"
  using sorted_bottomCandidates [of height topY hEdges] assms by auto

text \<open>
  C4, amended. The bottom candidates are the horizontal candidates strictly more than
  100px below the chosen top separator and strictly above \<open>height - 5\<close>. With none, the
  bottom separator is \<open>height - 25\<close>. Otherwise it is the lowest candidate (largest y,
  the first from the bottom), except that when this candidate is less than 25px above the
  image bottom and the next candidate up is less than 45px above it, the next candidate up
  is taken. For a 900px high snapshot with candidates at 850 and 820 the bottom separator
  is 850; with candidates at 880 and 850 it is 850.
\<close>

theorem bottom_separator_selection:
  "set (bottomCandidates height topY hEdges) =
     {e \<in> set hEdges. topY + 100 < edge_pos e \<and> edge_pos e < height - 5} \<and>
   (bottomCandidates height topY hEdges = [] \<longrightarrow>
      selectBottomSeparator height topY hEdges = height - 25) \<and>
   (\<forall>b0 rest. bottomCandidates height topY hEdges = b0 # rest \<longrightarrow>
      (\<forall>e \<in> set (bottomCandidates height topY hEdges). edge_pos e \<le> edge_pos b0) \<and>
      (rest \<noteq> [] \<longrightarrow> (\<forall>e \<in> set rest. edge_pos e \<le> edge_pos (hd rest))) \<and>
      selectBottomSeparator height topY hEdges =
        (if rest \<noteq> [] \<and> height - edge_pos b0 < 25 \<and> edge_pos b0 - edge_pos (hd rest) < 45
         then edge_pos (hd rest) else edge_pos b0))"
proof (intro conjI allI impI)
  show "set (bottomCandidates height topY hEdges) =
     {e \<in> set hEdges. topY + 100 < edge_pos e \<and> edge_pos e < height - 5}"
    by (rule set_bottomCandidates)
next
  assume "bottomCandidates height topY hEdges = []"
  then show "selectBottomSeparator height topY hEdges = height - 25"
    by (simp add: selectBottomSeparator_def)
next
  fix b0 rest
  assume b: "bottomCandidates height topY hEdges = b0 # rest"
  show "\<forall>e \<in> set (bottomCandidates height topY hEdges). edge_pos e \<le> edge_pos b0"
    by (rule first_bottomCandidate_lowest [OF b])
next
  fix b0 rest
  assume b: "bottomCandidates height topY hEdges = b0 # rest" and r: "rest \<noteq> []"
  show "\<forall>e \<in> set rest. edge_pos e \<le> edge_pos (hd rest)"
    using sorted_bottomCandidates [of height topY hEdges] b r by (cases rest) auto
next
  fix b0 rest
  assume b: "bottomCandidates height topY hEdges = b0 # rest"
  have le: "rest \<noteq> [] \<Longrightarrow> edge_pos (hd rest) \<le> edge_pos b0"
    using first_bottomCandidate_lowest [OF b] b by (cases rest) auto
  show "selectBottomSeparator height topY hEdges =
        (if rest \<noteq> [] \<and> height - edge_pos b0 < 25 \<and> edge_pos b0 - edge_pos (hd rest) < 45
         then edge_pos (hd rest) else edge_pos b0)"
    using b le by (cases rest) (auto simp add: selectBottomSeparator_def abs_if)
qed

theorem bottom_separator_selection_witness:
  "selectBottomSeparator 900 700
     [\<lparr>edge_pos = 880, edgeScore = 95 / 100, continuity = 95 / 100\<rparr>,
      \<lparr>edge_pos = 850, edgeScore = 8 / 10, continuity = 8 / 10\<rparr>,
      \<lparr>edge_pos = 700, edgeScore = 9 / 10, continuity = 9 / 10\<rparr>] = 850
   \<and> selectBottomSeparator 900 700
     [\<lparr>edge_pos = 700, edgeScore = 9 / 10, continuity = 9 / 10\<rparr>] = 875"
proof -
  have b: "bottomCandidates 900 700
     [\<lparr>edge_pos = 880, edgeScore = 95 / 100, continuity = 95 / 100\<rparr>,
      \<lparr>edge_pos = 850, edgeScore = 8 / 10, continuity = 8 / 10\<rparr>,
      \<lparr>edge_pos = 700, edgeScore = 9 / 10, continuity = 9 / 10\<rparr>]
     = \<lparr>edge_pos = 880, edgeScore = 95 / 100, continuity = 95 / 100\<rparr> #
       [\<lparr>edge_pos = 850, edgeScore = 8 / 10, continuity = 8 / 10\<rparr>]"
    and e: "bottomCandidates 900 700
     [\<lparr>edge_pos = 700, edgeScore = 9 / 10, continuity = 9 / 10\<rparr>] = []"
    by (simp_all add: bottomCandidates_def sortDescending_def)
  show ?thesis
    using b e
      bottom_separator_selection [of 900 700
        "[\<lparr>edge_pos = 880, edgeScore = 95 / 100, continuity = 95 / 100\<rparr>,
          \<lparr>edge_pos = 850, edgeScore = 8 / 10, continuity = 8 / 10\<rparr>,
          \<lparr>edge_pos = 700, edgeScore = 9 / 10, continuity = 9 / 10\<rparr>]"]
      bottom_separator_selection [of 900 700
        "[\<lparr>edge_pos = 700, edgeScore = 9 / 10, continuity = 9 / 10\<rparr>]"]
    by simp
qed

section \<open>Properties: the capture tick\<close>

lemmas tick_defs = processClient_def encoderFailsOnFirst_def regionEnv_def firstClient_def
  secondClient_def createDefaultClientState_def clientDefaults_def defaultGlobal_def
  lowResourceOff_def getEffectiveConfig_def getDpiScale_def baseRegion_def scaleBounds_def
  clip_def regionCrop_def performPaneDetection_def calibrationPrologue_def fastExit_def
  shouldRunDetection_def stableCrop_def manualCrop_def cropIf_def Let_def

text \<open>The two clients under the failing encoder: the first throws, the second gets a frame.\<close>

lemma processClient_first:
  "snd (processClient encoderFailsOnFirst
      \<lparr>isStreaming = True, streamInterval = Some (100 / 3), isCapturing = True,
        globalDetectedWindow = None\<rparr>
      \<lparr>region_x = 0, region_y = 0, region_w = 1920, region_h = 1080\<rparr> 1920 1080 firstClient)
   = Failed EncodeError"
  by (simp add: tick_defs)

lemma processClient_second:
  "snd (processClient encoderFailsOnFirst
      \<lparr>isStreaming = True, streamInterval = Some (100 / 3), isCapturing = True,
        globalDetectedWindow = None\<rparr>
      \<lparr>region_x = 0, region_y = 0, region_w = 1920, region_h = 1080\<rparr> 1920 1080 secondClient)
   = Frame (\<lparr>region_x = 500, region_y = 140, region_w = 800, region_h = 520\<rparr>, 70)"
  by (simp add: tick_defs)

lemma clientLoop_frames_from_clients:
  "fst ` set (fst (snd (clientLoop env eng img sw sh ids cs))) \<subseteq> (\<lambda>c. socketId (fst c)) ` set cs"
proof (induction cs)
  case Nil
  then show ?case by simp
next
  case (Cons c cs)
  then show ?case
    by (auto simp add: split_beta Let_def split: prod.splits client_outcome.splits)
qed

lemma clientLoop_append:
  assumes "snd (snd (clientLoop env eng img sw sh ids pre)) = None"
  shows "clientLoop env eng img sw sh ids (pre @ rest) =
           (fst (clientLoop env eng img sw sh ids pre) @ fst (clientLoop env eng img sw sh ids rest),
            fst (snd (clientLoop env eng img sw sh ids pre))
              @ fst (snd (clientLoop env eng img sw sh ids rest)),
            snd (snd (clientLoop env eng img sw sh ids rest)))"
  using assms
proof (induction pre)
  case Nil
  then show ?case by simp
next
  case (Cons c pre)
  then show ?case
    by (auto simp add: split_beta Let_def split: prod.splits client_outcome.splits if_splits)
qed

lemma clientLoop_length:
  "length (fst (clientLoop env eng img sw sh ids cs)) = length cs"
  by (induction cs) (auto simp add: split_beta Let_def split: prod.splits client_outcome.splits)

lemma clientLoop_failing_head:
  assumes "socketId (fst c) \<in> set ids"
    and "processClient env eng img sw sh c = (st', Failed e)"
  shows "clientLoop env eng img sw sh ids (c # post) = ((st', snd c) # post, [], Some e)"
  using assms by simp

lemma finish_clears_flag:
  assumes "w_pending w = Some ids"
  shows "w_engine (captureAndEmit_finish env w) = (w_engine w)\<lparr>isCapturing := False\<rparr> \<and>
         w_pending (captureAndEmit_finish env w) = None \<and>
         w_completed (captureAndEmit_finish env w) = w_completed w + 1 \<and>
         w_captures (captureAndEmit_finish env w) = w_captures w"
proof (cases "env_snapshot env")
  case (Inl e)
  then show ?thesis using assms by (simp add: captureAndEmit_finish_def)
next
  case (Inr snap)
  then show ?thesis
    using assms by (cases snap) (simp add: captureAndEmit_finish_def Let_def)
qed

text \<open>
  C1 as stated fails on the code. Two eligible chat clients are processed in one tick and
  the encoder throws on the frame of the first: the error is caught and logged, but the
  loop is left, and the second client, whose own processing succeeds (it gets its frame
  when it is alone), receives no frame in this tick.
\<close>

theorem one_failure_ends_the_loop_counterexample:
  "w_emitted (run [TimerTick, TickDone encoderFailsOnFirst]
      (startedWorld (100 / 3) [firstClient, secondClient])) = [] \<and>
   w_log (run [TimerTick, TickDone encoderFailsOnFirst]
      (startedWorld (100 / 3) [firstClient, secondClient])) = [EncodeError] \<and>
   w_emitted (run [TimerTick, TickDone encoderFailsOnFirst]
      (startedWorld (100 / 3) [secondClient])) =
     [(''second'', \<lparr>region_x = 500, region_y = 140, region_w = 800, region_h = 520\<rparr>, 70)]"
proof -
  have ids: "socketId (fst firstClient) = ''first''" "socketId (fst secondClient) = ''second''"
    "activeLinkClients [firstClient, secondClient] = [firstClient, secondClient]"
    "activeLinkClients [secondClient] = [secondClient]"
    by (simp_all add: firstClient_def secondClient_def createDefaultClientState_def
        activeLinkClients_def streamingMode_def)
  have snap: "env_snapshot encoderFailsOnFirst =
      Inr (\<lparr>region_x = 0, region_y = 0, region_w = 1920, region_h = 1080\<rparr>, 1920, 1080)"
    by (simp add: encoderFailsOnFirst_def regionEnv_def)
  show ?thesis
    using processClient_first processClient_second
    by (simp add: run_def startedWorld_def captureAndEmit_start_def captureAndEmit_finish_def
        ids snap split_beta split: prod.split)
qed

text \<open>
  C1, amended. Within one capture tick the eligible clients are processed in insertion
  order inside a single \<open>try\<close>. When processing one client fails (detection, crop or
  encode error) after the clients before it were processed without error, the failure
  is caught and logged once for the tick; the clients before it have received their
  frames and only they; the failing client and every client after it receive no frame in
  this tick, and the clients after it are left untouched. The completion of the tick
  clears the in-flight flag and changes nothing else of the engine, so the timer keeps
  running and later ticks are not blocked.
\<close>

theorem failing_client_ends_the_tick:
  assumes "socketId (fst c) \<in> set ids"
    and "snd (processClient env eng img sw sh c) = Failed e"
    and "snd (snd (clientLoop env eng img sw sh ids pre)) = None"
    and "w_pending w = Some ids"
  shows "clientLoop env eng img sw sh ids (pre @ c # post) =
           (fst (clientLoop env eng img sw sh ids pre)
              @ (fst (processClient env eng img sw sh c), snd c) # post,
            fst (snd (clientLoop env eng img sw sh ids pre)),
            Some e) \<and>
         fst ` set (fst (snd (clientLoop env eng img sw sh ids (pre @ c # post))))
           \<subseteq> (\<lambda>p. socketId (fst p)) ` set pre \<and>
         w_engine (captureAndEmit_finish env w) = (w_engine w)\<lparr>isCapturing := False\<rparr> \<and>
         w_pending (captureAndEmit_finish env w) = None"
proof -
  have pc: "processClient env eng img sw sh c = (fst (processClient env eng img sw sh c), Failed e)"
    using assms(2) by (simp add: prod_eq_iff)
  have a: "clientLoop env eng img sw sh ids (pre @ c # post) =
           (fst (clientLoop env eng img sw sh ids pre)
              @ (fst (processClient env eng img sw sh c), snd c) # post,
            fst (snd (clientLoop env eng img sw sh ids pre)),
            Some e)"
    unfolding clientLoop_append [OF assms(3)] clientLoop_failing_head [OF assms(1) pc]
    by simp
  have b: "fst ` set (fst (snd (clientLoop env eng img sw sh ids (pre @ c # post))))
           \<subseteq> (\<lambda>p. socketId (fst p)) ` set pre"
    unfolding a using clientLoop_frames_from_clients [of env eng img sw sh ids pre] by simp
  have c: "w_engine (captureAndEmit_finish env w) = (w_engine w)\<lparr>isCapturing := False\<rparr>"
    "w_pending (captureAndEmit_finish env w) = None"
    using finish_clears_flag [OF assms(4), of env] by simp_all
  show ?thesis using a b c by simp
qed

theorem failing_client_ends_the_tick_witness:
  "snd (snd (clientLoop encoderFailsOnFirst
      \<lparr>isStreaming = True, streamInterval = Some (100 / 3), isCapturing = True,
        globalDetectedWindow = None\<rparr>
      \<lparr>region_x = 0, region_y = 0, region_w = 1920, region_h = 1080\<rparr> 1920 1080
      [''second'', ''first''] ([secondClient] @ firstClient # [secondClient])))
     = Some EncodeError \<and>
   fst (snd (clientLoop encoderFailsOnFirst
      \<lparr>isStreaming = True, streamInterval = Some (100 / 3), isCapturing = True,
        globalDetectedWindow = None\<rparr>
      \<lparr>region_x = 0, region_y = 0, region_w = 1920, region_h = 1080\<rparr> 1920 1080
      [''second'', ''first''] ([secondClient] @ firstClient # [secondClient])))
     = [(''second'', \<lparr>region_x = 500, region_y = 140, region_w = 800, region_h = 520\<rparr>, 70)]"
proof -
  have h1: "socketId (fst firstClient) \<in> set [''second'', ''first'']"
    by (simp add: firstClient_def createDefaultClientState_def)
  have sid: "socketId (fst secondClient) = ''second''"
    by (simp add: secondClient_def createDefaultClientState_def)
  have pre: "clientLoop encoderFailsOnFirst
      \<lparr>isStreaming = True, streamInterval = Some (100 / 3), isCapturing = True,
        globalDetectedWindow = None\<rparr>
      \<lparr>region_x = 0, region_y = 0, region_w = 1920, region_h = 1080\<rparr> 1920 1080
      [''second'', ''first''] [secondClient]
     = ([(fst (processClient encoderFailsOnFirst
            \<lparr>isStreaming = True, streamInterval = Some (100 / 3), isCapturing = True,
              globalDetectedWindow = None\<rparr>
            \<lparr>region_x = 0, region_y = 0, region_w = 1920, region_h = 1080\<rparr> 1920 1080
            secondClient), snd secondClient)],
        [(''second'', \<lparr>region_x = 500, region_y = 140, region_w = 800, region_h = 520\<rparr>, 70)],
        None)"
    using processClient_second by (auto simp add: sid split: prod.split)
  have h3: "snd (snd (clientLoop encoderFailsOnFirst
      \<lparr>isStreaming = True, streamInterval = Some (100 / 3), isCapturing = True,
        globalDetectedWindow = None\<rparr>
      \<lparr>region_x = 0, region_y = 0, region_w = 1920, region_h = 1080\<rparr> 1920 1080
      [''second'', ''first''] [secondClient])) = None"
    by (simp only: pre snd_conv)
  have h4: "w_pending ((startedWorld (100 / 3) [secondClient, firstClient, secondClient])
      \<lparr>w_pending := Some [''second'', ''first'']\<rparr> :: (region \<times> rat) world)
        = Some [''second'', ''first'']"
    by simp
  show ?thesis
    using failing_client_ends_the_tick [OF h1 processClient_first h3 h4,
        where post = "[secondClient]"]
    by (simp only: pre fst_conv snd_conv)
qed

lemma step_keeps_invariant:
  "atMostOneInFlight w \<Longrightarrow> atMostOneInFlight (handleEvent ev w)"
proof (cases ev)
  case TimerTick
  assume "atMostOneInFlight w"
  then show ?thesis
    using TimerTick by (auto simp add: atMostOneInFlight_def captureAndEmit_start_def)
next
  case (TickDone env)
  assume inv: "atMostOneInFlight w"
  show ?thesis
  proof (cases "w_pending w")
    case None
    then show ?thesis using inv TickDone by (simp add: captureAndEmit_finish_def)
  next
    case (Some ids)
    show ?thesis
      using inv TickDone Some finish_clears_flag [OF Some, of env]
      by (simp add: atMostOneInFlight_def)
  qed
next
  case (ClientEvent handler)
  assume "atMostOneInFlight w"
  then show ?thesis
    using ClientEvent by (simp add: atMostOneInFlight_def)
qed

lemma run_keeps_invariant:
  "atMostOneInFlight w \<Longrightarrow> atMostOneInFlight (run events w)"
  unfolding run_def
  by (induction events arbitrary: w) (simp_all add: step_keeps_invariant)

lemma startedWorld_invariant: "atMostOneInFlight (startedWorld period clients)"
  by (simp add: atMostOneInFlight_def startedWorld_def)

text \<open>
  C7. A timer tick that finds the work of a previous tick still in flight changes
  nothing: no capture, no frame. A tick with no client that is both active and in a
  streaming mode (chat, terminal, apps) captures nothing, emits nothing and leaves the
  flag clear. The completion of a tick clears the flag, whether the snapshot or a client
  failed or not. Over every sequence of timer ticks, completions and client events after
  \<open>start()\<close>, at most one capture is in flight, and a tick arriving while one is in
  flight leaves the whole state as it is.
\<close>

theorem in_flight_guard:
  "(isCapturing (w_engine w) \<longrightarrow> captureAndEmit_start w = w) \<and>
   (activeLinkClients (w_clients w) = [] \<longrightarrow>
      w_captures (captureAndEmit_start w) = w_captures w \<and>
      w_emitted (captureAndEmit_start w) = w_emitted w \<and>
      w_pending (captureAndEmit_start w) = w_pending w) \<and>
   (\<not> isCapturing (w_engine w) \<and> activeLinkClients (w_clients w) = [] \<longrightarrow>
      \<not> isCapturing (w_engine (captureAndEmit_start w))) \<and>
   (w_pending w \<noteq> None \<longrightarrow> \<not> isCapturing (w_engine (captureAndEmit_finish env w))) \<and>
   atMostOneInFlight (run events (startedWorld period clients)) \<and>
   (isCapturing (w_engine (run events (startedWorld period clients))) \<longrightarrow>
      run (events @ [TimerTick]) (startedWorld period clients)
        = run events (startedWorld period clients))"
proof -
  have "isCapturing (w_engine w) \<longrightarrow> captureAndEmit_start w = w"
    by (simp add: captureAndEmit_start_def)
  moreover have "activeLinkClients (w_clients w) = [] \<longrightarrow>
      w_captures (captureAndEmit_start w) = w_captures w \<and>
      w_emitted (captureAndEmit_start w) = w_emitted w \<and>
      w_pending (captureAndEmit_start w) = w_pending w"
    by (simp add: captureAndEmit_start_def)
  moreover have "\<not> isCapturing (w_engine w) \<and> activeLinkClients (w_clients w) = [] \<longrightarrow>
      \<not> isCapturing (w_engine (captureAndEmit_start w))"
    by (simp add: captureAndEmit_start_def)
  moreover have "w_pending w \<noteq> None \<longrightarrow> \<not> isCapturing (w_engine (captureAndEmit_finish env w))"
    using finish_clears_flag [of w _ env] by auto
  moreover have "atMostOneInFlight (run events (startedWorld period clients))"
    by (rule run_keeps_invariant [OF startedWorld_invariant])
  moreover have "isCapturing (w_engine (run events (startedWorld period clients))) \<longrightarrow>
      run (events @ [TimerTick]) (startedWorld period clients)
        = run events (startedWorld period clients)"
    by (simp add: run_def captureAndEmit_start_def)
  ultimately show ?thesis by blast
qed

theorem in_flight_guard_witness:
  "run ([TimerTick, TimerTick] :: (region, region \<times> rat) event list) (startedWorld (100 / 3) [firstClient] :: (region \<times> rat) world)
     = run ([TimerTick] :: (region, region \<times> rat) event list) (startedWorld (100 / 3) [firstClient]) \<and>
   w_captures (run ([TimerTick, TimerTick] :: (region, region \<times> rat) event list)
     (startedWorld (100 / 3) [firstClient] :: (region \<times> rat) world)) = 1 \<and>
   \<not> isCapturing (w_engine (captureAndEmit_finish
       (regionEnv\<lparr>env_snapshot := Inl CaptureError\<rparr>)
       (run ([TimerTick] :: (region, region \<times> rat) event list) (startedWorld (100 / 3) [firstClient])))) \<and>
   w_captures (captureAndEmit_start
     (startedWorld (100 / 3) [] :: (region \<times> rat) world)) = 0 \<and>
   \<not> isCapturing (w_engine (captureAndEmit_start
     (startedWorld (100 / 3) [] :: (region \<times> rat) world)))"
proof -
  have idle: "activeLinkClients (w_clients (startedWorld (100 / 3) [] :: (region \<times> rat) world)) = []"
    "\<not> isCapturing (w_engine (startedWorld (100 / 3) [] :: (region \<times> rat) world))"
    "w_captures (startedWorld (100 / 3) [] :: (region \<times> rat) world) = 0"
    by (simp_all add: startedWorld_def activeLinkClients_def)
  have act: "activeLinkClients [firstClient] = [firstClient]"
    by (simp add: firstClient_def createDefaultClientState_def activeLinkClients_def
        streamingMode_def)
  have one: "run ([TimerTick] :: (region, region \<times> rat) event list) (startedWorld (100 / 3) [firstClient] :: (region \<times> rat) world) =
      (startedWorld (100 / 3) [firstClient])
        \<lparr>w_engine := \<lparr>isStreaming = True, streamInterval = Some (100 / 3), isCapturing = True,
                       globalDetectedWindow = None\<rparr>,
         w_pending := Some [socketId (fst firstClient)], w_captures := 1\<rparr>"
    by (simp add: run_def captureAndEmit_start_def startedWorld_def act)
  have busy: "isCapturing (w_engine (run ([TimerTick] :: (region, region \<times> rat) event list)
      (startedWorld (100 / 3) [firstClient] :: (region \<times> rat) world)))"
    and pend: "w_pending (run ([TimerTick] :: (region, region \<times> rat) event list)
      (startedWorld (100 / 3) [firstClient] :: (region \<times> rat) world)) \<noteq> None"
    and caps: "w_captures (run ([TimerTick] :: (region, region \<times> rat) event list)
      (startedWorld (100 / 3) [firstClient] :: (region \<times> rat) world)) = 1"
    by (simp_all add: one)
  show ?thesis
    using busy pend caps idle
      in_flight_guard [of "startedWorld (100 / 3) [] :: (region \<times> rat) world"
        "regionEnv\<lparr>env_snapshot := Inl CaptureError\<rparr>"
        "[TimerTick] :: (region, region \<times> rat) event list" "100 / 3" "[firstClient]"]
      in_flight_guard [of
        "run ([TimerTick] :: (region, region \<times> rat) event list) (startedWorld (100 / 3) [firstClient] :: (region \<times> rat) world)"
        "regionEnv\<lparr>env_snapshot := Inl CaptureError\<rparr>" "[TimerTick] :: (region, region \<times> rat) event list" "100 / 3"
        "[firstClient]"]
    by simp
qed

section \<open>Properties: the worker channel\<close>




















end
